theory Spec2Isabelle
  imports Main
begin

section \<open>The test harness of internal/gt/vcs.go\<close>

text \<open>
  The file under verification simulates a source-hosting endpoint for integration
  tests: an HTTP handler that answers go-import requests from a table of registered
  repository handles, a git daemon started and supervised as a subprocess, and
  handles that commit into a repository and report revision and commit time.

  The embedding is shallow. Go strings are byte strings (\<open>string\<close>), the routing
  table \<open>map[string]VcsHandle\<close> is a partial function from package paths to
  handles, and every way out of a function other than its return (\<open>Fatalf\<close> and
  \<open>Skip\<close> of the test context, an explicit \<open>panic\<close>, a run-time panic of the Go
  runtime) is a value of the type \<open>abort\<close>. What the operating system and the
  subprocesses answer is an explicit argument of the function that asks.
\<close>

subsection \<open>Functions of package strings\<close>

text \<open>\<open>strings.HasPrefix(s, prefix)\<close>:
  \<open>len(s) >= len(prefix) && s[:len(prefix)] == prefix\<close>.\<close>

definition HasPrefix :: "string \<Rightarrow> string \<Rightarrow> bool" where
  "HasPrefix s pre = (length pre \<le> length s \<and> take (length pre) s = pre)"

text \<open>\<open>strings.TrimPrefix(s, prefix)\<close>: \<open>s\<close> without the leading \<open>prefix\<close>, and
  \<open>s\<close> itself when it does not start with \<open>prefix\<close>. One occurrence is removed.\<close>

definition TrimPrefix :: "string \<Rightarrow> string \<Rightarrow> string" where
  "TrimPrefix s pre = (if HasPrefix s pre then drop (length pre) s else s)"

text \<open>\<open>strings.Contains(s, substr)\<close>: \<open>substr\<close> occurs at some offset of \<open>s\<close>.\<close>

fun Contains :: "string \<Rightarrow> string \<Rightarrow> bool" where
  "Contains [] sub = (sub = [])"
| "Contains (c # s) sub = (HasPrefix (c # s) sub \<or> Contains s sub)"

subsection \<open>Diagnostics and aborts\<close>

text \<open>
  A diagnostic is the format string and the operands the source hands to
  \<open>Fatalf\<close>, \<open>Logf\<close> or \<open>panic\<close>; the rendering of \<open>%q\<close> and \<open>%v\<close> by package
  fmt is not modelled. An error of \<open>time.Parse\<close> is kept as what went wrong: a
  layout element that the value does not match (with the value from that point),
  a field out of range, or text after the last element.
\<close>

datatype ParseError =
    CannotParse string string
  | OutOfRange string
  | ExtraText string

datatype operand =
    Str string
  | Strs "string list"
  | Bytes string
  | Err string
  | ParseErr ParseError

datatype runtime_error =
    IndexOutOfRange nat nat
  | NilPointerDereference

datatype abort =
    Fatalf string "operand list"
  | Skip string
  | Panic "operand list"
  | RuntimePanic runtime_error

subsection \<open>Data model\<close>

text \<open>\<open>type runner struct\<close>. The field \<open>t\<close> points to the one test context, which
  the functions below take and return as an argument of its own.\<close>

record runner =
  execPath :: string
  cwd :: string

text \<open>\<open>type vcsCommon struct\<close> embeds \<open>runner\<close>; \<open>gitVcsHandle\<close> embeds
  \<open>vcsCommon\<close> and adds no field. The back pointer \<open>h\<close> is the one handler the
  handle was made by. \<open>gitVcsHandle\<close> is the only implementation of the interface
  \<open>VcsHandle\<close>, whose nil value is \<open>None\<close>.\<close>

record vcsCommon = runner +
  importPath :: string

type_synonym gitVcsHandle = vcsCommon

type_synonym VcsHandle = "gitVcsHandle option"

definition pkg :: "gitVcsHandle \<Rightarrow> string" where
  "pkg vcs = importPath vcs"

text \<open>\<open>type HttpHandler struct\<close>, which embeds \<open>runner\<close>. The field \<open>pkg\<close> is
  \<open>h_pkg\<close> here (the method \<open>pkg()\<close> of the handles has the name). Listener and
  \<open>newer\<close> are left out: the listener only yields \<open>httpAddr\<close>, and
  \<open>NewHttpHandler\<close> sets no constructor but the one for git, \<open>gitNewer\<close>.\<close>

record HttpHandler = runner +
  httpAddr :: string
  vcsAddr :: string
  vcsName :: string
  h_pkg :: string
  handles :: "string \<rightharpoonup> gitVcsHandle"

text \<open>An HTTP response as the client sees it: the status line and the body.\<close>

record response =
  status :: nat
  contentType :: string
  body :: string

definition newline :: char where
  "newline = CHR 0x0A"

definition dquote :: char where
  "dquote = CHR 0x22"

text \<open>\<open>http.Error(w, error, code)\<close> of net/http: content type text/plain, the
  status \<open>code\<close>, and the message printed by \<open>Fprintln\<close>, that is, followed by a
  newline.\<close>

definition http_Error :: "string \<Rightarrow> nat \<Rightarrow> response" where
  "http_Error msg code =
     \<lparr>status = code, contentType = ''text/plain; charset=utf-8'', body = msg @ [newline]\<rparr>"

text \<open>Writing a body with no status set: net/http answers 200 and, for a body
  that starts with \<open><html>\<close>, sniffs the content type text/html.\<close>

definition http_Write :: "string \<Rightarrow> response" where
  "http_Write b = \<lparr>status = 200, contentType = ''text/html; charset=utf-8'', body = b\<rparr>"

subsection \<open>ServeHTTP\<close>

text \<open>The constant \<open>templ\<close> with its three \<open>%s\<close> filled in.\<close>

definition templ :: "string \<Rightarrow> string \<Rightarrow> string \<Rightarrow> string" where
  "templ a b c =
     ''<html><head><meta name='' @ [dquote] @ ''go-import'' @ [dquote] @ '' content='' @ [dquote]
       @ a @ '' '' @ b @ '' '' @ c @ [dquote] @ ''></head></html>'' @ [newline]"

text \<open>
  The loop \<open>for _, try := range h.handles\<close>. Go visits the entries of a map in an
  order it does not specify and that changes from one loop to the next, so the
  order is an argument: \<open>ks\<close> lists the keys in the order this loop visits them.
  The result is the first visited handle whose package path is a prefix of \<open>p\<close>,
  and nil when the loop ends without one.
\<close>

fun range_handles :: "(string \<rightharpoonup> gitVcsHandle) \<Rightarrow> string list \<Rightarrow> string \<Rightarrow> VcsHandle" where
  "range_handles hs [] p = None"
| "range_handles hs (k # ks) p =
     (case hs k of
        None \<Rightarrow> range_handles hs ks p
      | Some try \<Rightarrow> if HasPrefix p (pkg try) then Some try else range_handles hs ks p)"

definition ServeHTTP :: "HttpHandler \<Rightarrow> string list \<Rightarrow> string \<Rightarrow> response" where
  "ServeHTTP h ks path =
     (let p = TrimPrefix path ''/'' in
      case range_handles (handles h) ks p of
        None \<Rightarrow> http_Error ''repo not found'' 404
      | Some handle \<Rightarrow>
          http_Write (templ (httpAddr h @ ''/'' @ pkg handle) (vcsName h)
                            (vcsAddr h @ pkg handle @ ''/.git'')))"

text \<open>An order of visit of a map: every key once.\<close>

definition visits :: "('k \<rightharpoonup> 'v) \<Rightarrow> 'k list \<Rightarrow> bool" where
  "visits m ks = (distinct ks \<and> set ks = dom m)"


subsection \<open>The test context\<close>

text \<open>
  Modelled from the spec: the type \<open>GopathTest\<close> is declared in another file of
  the package. Of the test context the code reads the package path \<open>g.pkg\<close>, the
  directories \<open>g.Current()\<close> and \<open>g.Path("")\<close>, and calls \<open>Fatalf\<close> (abort with a
  message), \<open>Skip\<close> (mark the test skipped and leave it), \<open>Logf\<close> and \<open>onClean\<close>
  (register a cleanup action; registrations accumulate). A cleanup action is one
  of the two closures the file registers, with the variables it captures.
\<close>

datatype stream = Stdout | Stderr

text \<open>\<open>exec.Cmd\<close>: \<open>Process\<close> is nil until \<open>Start\<close> succeeds; \<open>ProcessState\<close> is
  nil, or the state of the process that has ended (the flag is its \<open>Exited()\<close>).
  A \<open>*bytes.Buffer\<close> is named by the stream it captures; what it holds at a
  moment is asked of the environment.\<close>

record Cmd =
  Path :: string
  Args :: "string list"
  Dir :: string
  Process :: "nat option"
  ProcessState :: "bool option"

datatype cleanup =
    remove_handle gitVcsHandle
  | stop_process Cmd "stream option" "stream option"

record GopathTest =
  g_pkg :: string
  Current :: string
  Path_root :: string
  cleanups :: "cleanup list"

definition onClean :: "GopathTest \<Rightarrow> cleanup \<Rightarrow> GopathTest" where
  "onClean g fn = g\<lparr>cleanups := cleanups g @ [fn]\<rparr>"

subsection \<open>Running commands\<close>

text \<open>What a finished command answers: \<open>Inl err\<close> when \<open>CombinedOutput\<close> returns
  an error, \<open>Inr out\<close> with the combined output otherwise. The shell maps
  executable, working directory and arguments to the answer.\<close>

type_synonym shell = "string \<Rightarrow> string \<Rightarrow> string list \<Rightarrow> string + string"

definition run :: "shell \<Rightarrow> 'a runner_scheme \<Rightarrow> string list \<Rightarrow> abort + string" where
  "run sh r args =
     (case sh (execPath r) (cwd r) args of
        Inl err \<Rightarrow> Inl (Fatalf ''Failed to run %q %q: %v'' [Str (execPath r), Strs args, Err err])
      | Inr out \<Rightarrow> Inr out)"

definition and_then :: "'e + 'a \<Rightarrow> ('a \<Rightarrow> 'e + 'b) \<Rightarrow> 'e + 'b" where
  "and_then r f = (case r of Inl e \<Rightarrow> Inl e | Inr a \<Rightarrow> f a)"

subsection \<open>Handles: create, remove, Setup\<close>

definition create :: "shell \<Rightarrow> gitVcsHandle \<Rightarrow> abort + unit" where
  "create sh vcs =
     and_then (run sh vcs [''init'']) (\<lambda>_.
     and_then (run sh vcs [''config'', ''user.name'', ''tests'']) (\<lambda>_.
     and_then (run sh vcs [''config'', ''user.email'', ''tests@govendor.io'']) (\<lambda>_.
     Inr ())))"

text \<open>\<open>delete(vcs.h.handles, vcs.pkg())\<close>: the entry under the handle's package path
  goes, whichever handle it holds.\<close>

definition remove :: "HttpHandler \<Rightarrow> gitVcsHandle \<Rightarrow> HttpHandler" where
  "remove h vcs = h\<lparr>handles := (handles h)(pkg vcs := None)\<rparr>"

text \<open>The closure \<open>h.newer\<close> set by \<open>NewHttpHandler\<close> for git: its \<open>execPath\<close> is
  the one the handler found, directory and import path are read from the test
  context when the closure runs.\<close>

definition gitNewer :: "GopathTest \<Rightarrow> HttpHandler \<Rightarrow> gitVcsHandle" where
  "gitNewer g h = \<lparr>execPath = execPath h, cwd = Current g, importPath = g_pkg g\<rparr>"

definition Setup ::
  "shell \<Rightarrow> GopathTest \<Rightarrow> HttpHandler \<Rightarrow> GopathTest \<times> HttpHandler \<times> (abort + gitVcsHandle)" where
  "Setup sh g h =
     (let vcs = gitNewer g h in
      case create sh vcs of
        Inl e \<Rightarrow> (g, h, Inl e)
      | Inr _ \<Rightarrow>
          (onClean g (remove_handle vcs),
           h\<lparr>handles := (handles h)(pkg vcs \<mapsto> vcs)\<rparr>,
           Inr vcs))"

text \<open>The routing tables the code builds: the empty table of \<open>NewHttpHandler\<close>,
  and what \<open>Setup\<close> and \<open>remove\<close> make of a table.\<close>

inductive reachable :: "(string \<rightharpoonup> gitVcsHandle) \<Rightarrow> bool" where
  made: "reachable Map.empty"
| registered: "reachable hs \<Longrightarrow> reachable (hs(pkg vcs \<mapsto> vcs))"
| removed: "reachable hs \<Longrightarrow> reachable (hs(pkg vcs := None))"


subsection \<open>runAsync: starting and supervising the daemon\<close>

text \<open>
  The subprocess at one moment: whether it still runs, and what the two buffers
  hold. The code sees the buffers; that the process has ended it can learn from
  \<open>cmd.ProcessState\<close> only.
\<close>

record observation =
  alive :: bool
  holds :: "stream \<Rightarrow> string"

text \<open>The environment of \<open>runAsync\<close>: the error of \<open>cmd.Start()\<close> if it fails, the
  process it starts, and the subprocess at each turn of the polling loop (turn
  100 is the moment after the loop).\<close>

record proc_env =
  start_error :: "string option"
  pid :: nat
  seen :: "nat \<Rightarrow> observation"

text \<open>\<open>exec.Command\<close> and \<open>cmd.Start()\<close> of os/exec. \<open>Start\<close> sets \<open>Process\<close>. The
  field \<open>ProcessState\<close> is documented as available after a call to \<open>Wait\<close> or
  \<open>Run\<close>: \<open>(*Cmd).Wait\<close> is where the library assigns it, and neither \<open>Start\<close> nor
  the goroutines that copy the output touch it.\<close>

definition exec_Command :: "string \<Rightarrow> string list \<Rightarrow> Cmd" where
  "exec_Command name args =
     \<lparr>Path = name, Args = name # args, Dir = [], Process = None, ProcessState = None\<rparr>"

definition Start :: "proc_env \<Rightarrow> Cmd \<Rightarrow> string + Cmd" where
  "Start env cmd =
     (case start_error env of
        Some err \<Rightarrow> Inl err
      | None \<Rightarrow> Inr (cmd\<lparr>Process := Some (pid env)\<rparr>))"

text \<open>\<open>(*bytes.Buffer).Bytes()\<close>: reading through a nil pointer is a run-time
  panic.\<close>

definition Buffer_Bytes :: "(stream \<Rightarrow> string) \<Rightarrow> stream option \<Rightarrow> abort + string" where
  "Buffer_Bytes hold b =
     (case b of None \<Rightarrow> Inl (RuntimePanic NilPointerDereference) | Some st \<Rightarrow> Inr (hold st))"

text \<open>\<open>(*bytes.Buffer).String()\<close> answers \<open><nil>\<close> for a nil pointer.\<close>

definition Buffer_String :: "(stream \<Rightarrow> string) \<Rightarrow> stream option \<Rightarrow> string" where
  "Buffer_String hold b = (case b of None \<Rightarrow> ''<nil>'' | Some st \<Rightarrow> hold st)"

text \<open>The test \<open>cmd.ProcessState != nil && cmd.ProcessState.Exited()\<close>.\<close>

definition exited :: "Cmd \<Rightarrow> bool" where
  "exited cmd = (case ProcessState cmd of None \<Rightarrow> False | Some st \<Rightarrow> st)"

definition unexpected_stop :: string where
  "unexpected_stop = ''unexpected stop %q %q'' @ [newline] @ ''%s'' @ [newline] @ ''%s'' @ [newline]"

definition failed_to_read :: string where
  "failed_to_read = ''failed to read expected output %q from %q %q'' @ [newline] @ ''%s'' @ [newline]"

text \<open>
  The loop \<open>for i := 0; i < 100; i++\<close> from turn \<open>i\<close> on, with the \<open>Fatalf\<close> that
  follows it. The result pairs the number of calls of
  \<open>time.Sleep(time.Millisecond * 10)\<close> made from turn \<open>i\<close> on with the outcome.
\<close>

function poll ::
  "string \<Rightarrow> string list \<Rightarrow> string \<Rightarrow> Cmd \<Rightarrow> stream option \<Rightarrow> stream option
     \<Rightarrow> (nat \<Rightarrow> observation) \<Rightarrow> nat \<Rightarrow> nat \<times> (abort + unit)" where
  "poll exe args checkFor cmd buf bufErr obs i =
     (if i < 100 then
        (if exited cmd then
           (0, and_then (Buffer_Bytes (holds (obs i)) buf) (\<lambda>out.
               and_then (Buffer_Bytes (holds (obs i)) bufErr) (\<lambda>err.
               Inl (Fatalf unexpected_stop [Str exe, Strs args, Bytes out, Bytes err]))))
         else if Contains (Buffer_String (holds (obs i)) buf) checkFor then (0, Inr ())
         else if Contains (Buffer_String (holds (obs i)) bufErr) checkFor then (0, Inr ())
         else (let (n, r) = poll exe args checkFor cmd buf bufErr obs (Suc i) in (Suc n, r)))
      else
        (0, and_then (Buffer_Bytes (holds (obs i)) bufErr) (\<lambda>err.
            Inl (Fatalf failed_to_read [Str checkFor, Str exe, Strs args, Bytes err]))))"
  by pat_completeness auto
termination
  by (relation "measure (\<lambda>(exe, args, checkFor, cmd, buf, bufErr, obs, i). 100 - i)") auto

declare poll.simps [simp del]

text \<open>What \<open>runAsync\<close> hands back next to the test context: the number of sleeps
  of the polling loop and the outcome.\<close>

definition runAsync ::
  "proc_env \<Rightarrow> GopathTest \<Rightarrow> 'a runner_scheme \<Rightarrow> string \<Rightarrow> string list
     \<Rightarrow> GopathTest \<times> nat \<times> (abort + Cmd)" where
  "runAsync env g r checkFor args =
     (let cmd = (exec_Command (execPath r) args)\<lparr>Dir := Current g\<rparr>;
          buf = (if checkFor \<noteq> [] then Some Stdout else None);
          bufErr = (if checkFor \<noteq> [] then Some Stderr else None)
      in case Start env cmd of
           Inl err \<Rightarrow>
             (g, 0, Inl (Fatalf ''Failed to start %q %q: %v'' [Str (execPath r), Strs args]))
         | Inr cmd \<Rightarrow>
             (let g = onClean g (stop_process cmd buf bufErr)
              in if checkFor \<noteq> [] then
                   (let (n, res) = poll (execPath r) args checkFor cmd buf bufErr (seen env) 0
                    in (g, n, and_then res (\<lambda>_. Inr cmd)))
                 else (g, 0, Inr cmd)))"

subsection \<open>The cleanup actions\<close>

text \<open>
  What running the daemon's cleanup does to the world, in order. The environment
  says whether \<open>cmd.Process.Wait()\<close> returns before the 300 milliseconds of
  \<open>time.After\<close> are over, and what the buffers hold when they are logged. A signal
  to a process that has exited returns an error, which the code drops.
\<close>

datatype effect =
    Signal_Interrupt nat
  | Kill nat
  | Logf string "operand list"

record stop_env =
  wait_returns :: bool
  final :: "stream \<Rightarrow> string"

definition run_stop_process ::
  "stop_env \<Rightarrow> Cmd \<Rightarrow> stream option \<Rightarrow> stream option \<Rightarrow> effect list \<times> abort option" where
  "run_stop_process env cmd buf bufErr =
     (case Process cmd of
        None \<Rightarrow> ([], None)
      | Some p \<Rightarrow>
          (let race = Signal_Interrupt p # (if wait_returns env then [] else [Kill p]) in
           case Buffer_Bytes (final env) buf of
             Inl e \<Rightarrow> (race, Some e)
           | Inr out \<Rightarrow>
               (let log1 = race @ [Logf (''%q StdOut: %s'' @ [newline]) [Str (Path cmd), Bytes out]] in
                case Buffer_Bytes (final env) bufErr of
                  Inl e \<Rightarrow> (log1, Some e)
                | Inr err \<Rightarrow>
                    (log1 @ [Logf (''%q StdErr: %s'' @ [newline]) [Str (Path cmd), Bytes err]], None))))"

text \<open>Running one registered cleanup action on the handler.\<close>

definition run_cleanup ::
  "stop_env \<Rightarrow> HttpHandler \<Rightarrow> cleanup \<Rightarrow> HttpHandler \<times> effect list \<times> abort option" where
  "run_cleanup env h c =
     (case c of
        remove_handle vcs \<Rightarrow> (remove h vcs, [], None)
      | stop_process cmd buf bufErr \<Rightarrow>
          (let (es, a) = run_stop_process env cmd buf bufErr in (h, es, a)))"

subsection \<open>Package time: the instant and the calendar\<close>

text \<open>
  The functions of package time that \<open>Commit\<close> calls are part of the Go library,
  not of the repository; they are modelled here after the library's sources. A
  \<open>Time\<close> is an instant, counted in seconds since January 1 of year 1, 00:00:00
  UTC, with its nanoseconds and the offset of its location east of UTC.
\<close>

record Time =
  sec :: int
  nsec :: nat
  zone :: int

definition daysBefore :: "nat list" where
  "daysBefore = [0, 31, 59, 90, 120, 151, 181, 212, 243, 273, 304, 334, 365]"

definition isLeap :: "int \<Rightarrow> bool" where
  "isLeap year = (year mod 4 = 0 \<and> (year mod 100 \<noteq> 0 \<or> year mod 400 = 0))"

definition daysIn :: "nat \<Rightarrow> int \<Rightarrow> nat" where
  "daysIn m year =
     (if m = 2 \<and> isLeap year then 29 else daysBefore ! m - daysBefore ! (m - 1))"

text \<open>\<open>daysSinceEpoch(year)\<close>: the days from January 1 of year 1 to January 1 of
  \<open>year\<close>, by cycles of 400, 100 and 4 years. (The library counts from a year
  far enough in the past to stay unsigned, a multiple of 400 years before year 1;
  here the division rounds down instead.)\<close>

definition daysSinceEpoch :: "int \<Rightarrow> int" where
  "daysSinceEpoch year =
     (let y = year - 1;
          n400 = y div 400; y1 = y - 400 * n400;
          n100 = y1 div 100; y2 = y1 - 100 * n100;
          n4 = y2 div 4; y3 = y2 - 4 * n4
      in 146097 * n400 + 36524 * n100 + 1461 * n4 + 365 * y3)"

text \<open>\<open>time.Date\<close> in UTC, for fields that are in range (\<open>Parse\<close> has checked
  them, so the normalisation of \<open>Date\<close> has nothing to do).\<close>

definition Date :: "int \<Rightarrow> nat \<Rightarrow> nat \<Rightarrow> nat \<Rightarrow> nat \<Rightarrow> nat \<Rightarrow> nat \<Rightarrow> Time" where
  "Date year month day hour minute second ns =
     (let d = daysSinceEpoch year + int (daysBefore ! (month - 1))
                + (if isLeap year \<and> 3 \<le> month then 1 else 0) + (int day - 1)
      in \<lparr>sec = d * 86400 + int hour * 3600 + int minute * 60 + int second,
          nsec = ns, zone = 0\<rparr>)"

text \<open>\<open>absDate\<close>, second half: month and day of the month from the day of the
  year (counted from 0). In a leap year the leap day is answered at once and the
  days after it are moved back by one; then the month is estimated as if every
  month had 31 days, which is too low by at most one month, and adjusted.\<close>

definition estimate_month :: "nat \<Rightarrow> nat \<times> nat" where
  "estimate_month day =
     (let month = day div 31;
          end = daysBefore ! (month + 1)
      in if day \<ge> end then (month + 2, day - end + 1)
         else (month + 1, day - daysBefore ! month + 1))"

definition month_day :: "bool \<Rightarrow> nat \<Rightarrow> nat \<times> nat" where
  "month_day leap yday =
     (if leap \<and> yday = 31 + 29 - 1 then (2, 29)
      else estimate_month (if leap \<and> yday > 31 + 29 - 1 then yday - 1 else yday))"

text \<open>\<open>absDate\<close>, first half: year and day of the year (from 0) of a day counted
  from January 1 of year 1. The days are cut into cycles of 400 years, of 100
  years (the last of the four has one more day, so a quotient of 4 counts as 3),
  of 4 years, and into years (the last of the four is the leap year, so again a
  quotient of 4 counts as 3).\<close>

definition absYear :: "int \<Rightarrow> int \<times> int" where
  "absYear days =
     (let n400 = days div 146097; d1 = days - 146097 * n400;
          n100' = d1 div 36524; n100 = n100' - n100' div 4; d2 = d1 - 36524 * n100;
          n4 = d2 div 1461; d3 = d2 - 1461 * n4;
          n1' = d3 div 365; n1 = n1' - n1' div 4; yday = d3 - 365 * n1
      in (400 * n400 + 100 * n100 + 4 * n4 + n1 + 1, yday))"

text \<open>\<open>absDate\<close>: year, month and day of a day counted from January 1 of year 1.\<close>

definition absDate :: "int \<Rightarrow> int \<times> nat \<times> nat" where
  "absDate days =
     (case absYear days of (year, yday) \<Rightarrow>
        case month_day (isLeap year) (nat yday) of (m, d) \<Rightarrow> (year, m, d))"

definition UTC :: "Time \<Rightarrow> Time" where
  "UTC t = t\<lparr>zone := 0\<rparr>"

subsection \<open>Package time: formatting\<close>

definition digit_char :: "nat \<Rightarrow> char" where
  "digit_char n = char_of (48 + n)"

fun decimal :: "nat \<Rightarrow> string" where
  "decimal n = (if n < 10 then [digit_char n] else decimal (n div 10) @ [digit_char (n mod 10)])"

declare decimal.simps [simp del]

text \<open>\<open>appendInt(b, x, width)\<close>: a minus sign for a negative number, then its
  digits, padded with zeros to \<open>width\<close>.\<close>

definition appendInt :: "int \<Rightarrow> nat \<Rightarrow> string" where
  "appendInt x width =
     (let ds = decimal (nat \<bar>x\<bar>) in
      (if x < 0 then [CHR ''-''] else []) @ replicate (width - length ds) (CHR ''0'') @ ds)"

text \<open>\<open>t.Format(time.RFC3339)\<close>, layout \<open>2006-01-02T15:04:05Z07:00\<close>.\<close>

definition Format_RFC3339 :: "Time \<Rightarrow> string" where
  "Format_RFC3339 t =
     (let abs = sec t + zone t;
          days = abs div 86400; r = abs mod 86400;
          offset = zone t div 60
      in case absDate days of (year, month, day) \<Rightarrow>
           appendInt year 4 @ ''-'' @ appendInt (int month) 2 @ ''-'' @ appendInt (int day) 2
           @ ''T'' @ appendInt (r div 3600) 2 @ '':'' @ appendInt (r mod 3600 div 60) 2
           @ '':'' @ appendInt (r mod 60) 2
           @ (if zone t = 0 then ''Z''
              else (if offset < 0 then ''-'' else ''+'')
                   @ appendInt (\<bar>offset\<bar> div 60) 2 @ '':'' @ appendInt (\<bar>offset\<bar> mod 60) 2))"

subsection \<open>Package time: parsing\<close>

definition is_digit :: "char \<Rightarrow> bool" where
  "is_digit c = ((48::nat) \<le> of_char c \<and> (of_char c :: nat) \<le> 57)"

definition isDigit :: "string \<Rightarrow> nat \<Rightarrow> bool" where
  "isDigit s i = (i < length s \<and> is_digit (s ! i))"

definition digit :: "char \<Rightarrow> nat" where
  "digit c = of_char c - 48"

definition getnum :: "string \<Rightarrow> bool \<Rightarrow> (nat \<times> string) option" where
  "getnum s fixed =
     (if \<not> isDigit s 0 then None
      else if \<not> isDigit s 1 then (if fixed then None else Some (digit (s ! 0), drop 1 s))
      else Some (digit (s ! 0) * 10 + digit (s ! 1), drop 2 s))"

text \<open>\<open>atoi\<close>: an optional sign, then digits only. (The overflow of the library's
  \<open>leadingInt\<close> is beyond the at most nine digits it is called with here.)\<close>

definition atoi :: "string \<Rightarrow> int option" where
  "atoi s =
     (let signed = (s \<noteq> [] \<and> (hd s = CHR ''-'' \<or> hd s = CHR ''+''));
          ds = (if signed then tl s else s)
      in if list_all is_digit ds
         then (let x = int (foldl (\<lambda>n c. 10 * n + digit c) 0 ds)
               in Some (if signed \<and> hd s = CHR ''-'' then - x else x))
         else None)"

definition cutspace :: "string \<Rightarrow> string" where
  "cutspace s = dropWhile (\<lambda>c. c = CHR '' '') s"

text \<open>\<open>skip(value, prefix)\<close>: the literal text of the layout before an element. A
  space of the layout stands for any number of spaces of the value. \<open>Inl\<close> is the
  value at the point of the mismatch.\<close>

function skip :: "string \<Rightarrow> string \<Rightarrow> string + string" where
  "skip v [] = Inr v"
| "skip v (p # ps) =
     (if p = CHR '' '' then
        (if v \<noteq> [] \<and> hd v \<noteq> CHR '' '' then Inl v else skip (cutspace v) (cutspace ps))
      else if v = [] \<or> hd v \<noteq> p then Inl v
      else skip (tl v) ps)"
  by pat_completeness auto
termination
  by (relation "measure (\<lambda>(v, p). length p)")
     (auto simp: cutspace_def less_Suc_eq_le length_dropWhile_le)

definition lit :: "string \<Rightarrow> string \<Rightarrow> ParseError + string" where
  "lit prefix v =
     (case skip v prefix of Inl rest \<Rightarrow> Inl (CannotParse prefix rest) | Inr rest \<Rightarrow> Inr rest)"

definition stdLongYear :: "string \<Rightarrow> ParseError + (int \<times> string)" where
  "stdLongYear v =
     (if length v < 4 \<or> \<not> isDigit v 0 then Inl (CannotParse ''2006'' v)
      else case atoi (take 4 v) of
             None \<Rightarrow> Inl (CannotParse ''2006'' v)
           | Some y \<Rightarrow> Inr (y, drop 4 v))"

definition stdZeroMonth :: "string \<Rightarrow> ParseError + (nat \<times> string)" where
  "stdZeroMonth v =
     (case getnum v True of
        None \<Rightarrow> Inl (CannotParse ''01'' v)
      | Some (m, rest) \<Rightarrow> if m \<le> 0 \<or> 12 < m then Inl (OutOfRange ''month'') else Inr (m, rest))"

definition stdZeroDay :: "string \<Rightarrow> ParseError + (nat \<times> string)" where
  "stdZeroDay v =
     (case getnum v True of None \<Rightarrow> Inl (CannotParse ''02'' v) | Some r \<Rightarrow> Inr r)"

definition stdHour :: "string \<Rightarrow> ParseError + (nat \<times> string)" where
  "stdHour v =
     (case getnum v False of
        None \<Rightarrow> Inl (CannotParse ''15'' v)
      | Some (h, rest) \<Rightarrow> if 24 \<le> h then Inl (OutOfRange ''hour'') else Inr (h, rest))"

definition stdZeroMinute :: "string \<Rightarrow> ParseError + (nat \<times> string)" where
  "stdZeroMinute v =
     (case getnum v True of
        None \<Rightarrow> Inl (CannotParse ''04'' v)
      | Some (m, rest) \<Rightarrow> if 60 \<le> m then Inl (OutOfRange ''minute'') else Inr (m, rest))"

definition commaOrPeriod :: "char \<Rightarrow> bool" where
  "commaOrPeriod c = (c = CHR ''.'' \<or> c = CHR '','')"

definition parseNanoseconds :: "string \<Rightarrow> nat \<Rightarrow> ParseError + nat" where
  "parseNanoseconds v nbytes =
     (let v' = (if nbytes > 10 then take 10 v else v);
          nb = (if nbytes > 10 then 10 else nbytes)
      in case atoi (take (nb - 1) (drop 1 v')) of
           None \<Rightarrow> Inl (CannotParse ''05'' v)
         | Some ns \<Rightarrow>
             if ns < 0 then Inl (OutOfRange ''fractional second'')
             else Inr (nat ns * 10 ^ (10 - nb)))"

text \<open>Seconds, and the special case of \<open>Parse\<close>: a fractional second in the value
  is read although the layout has none.\<close>

definition stdZeroSecond :: "string \<Rightarrow> ParseError + ((nat \<times> nat) \<times> string)" where
  "stdZeroSecond v =
     (case getnum v True of
        None \<Rightarrow> Inl (CannotParse ''05'' v)
      | Some (s, rest) \<Rightarrow>
          if 60 \<le> s then Inl (OutOfRange ''second'')
          else if length rest \<ge> 2 \<and> commaOrPeriod (rest ! 0) \<and> isDigit rest 1 then
            (let n = 2 + length (takeWhile is_digit (drop 2 rest)) in
             case parseNanoseconds rest n of
               Inl e \<Rightarrow> Inl e
             | Inr ns \<Rightarrow> Inr ((s, ns), drop n rest))
          else Inr ((s, 0), rest))"

text \<open>The offset from its sign and its two fields, shared by the zone elements:
  the range test lets 24 hours and 60 minutes pass, and the sign is looked at
  last.\<close>

definition zone_offset :: "string \<Rightarrow> string \<Rightarrow> char \<Rightarrow> string \<Rightarrow> string \<Rightarrow> ParseError + int" where
  "zone_offset std v sign hh mm =
     (case getnum hh True of
        None \<Rightarrow> Inl (CannotParse std v)
      | Some (hr, _) \<Rightarrow>
          (case getnum mm True of
             None \<Rightarrow> Inl (CannotParse std v)
           | Some (mi, _) \<Rightarrow>
               if mi > 60 then Inl (OutOfRange ''time zone offset minute'')
               else if hr > 24 then Inl (OutOfRange ''time zone offset hour'')
               else if sign = CHR ''+'' then Inr (int ((hr * 60 + mi) * 60))
               else if sign = CHR ''-'' then Inr (- int ((hr * 60 + mi) * 60))
               else Inl (CannotParse std v)))"

text \<open>The element \<open>-0700\<close>.\<close>

definition stdNumTZ :: "string \<Rightarrow> ParseError + (int \<times> string)" where
  "stdNumTZ v =
     (if length v < 5 then Inl (CannotParse ''-0700'' v)
      else and_then (zone_offset ''-0700'' v (v ! 0) (take 2 (drop 1 v)) (take 2 (drop 3 v)))
             (\<lambda>off. Inr (off, drop 5 v)))"

text \<open>The element \<open>Z07:00\<close>: a \<open>Z\<close> for UTC, or sign, hours, colon, minutes.\<close>

definition stdISO8601ColonTZ :: "string \<Rightarrow> ParseError + (int \<times> string)" where
  "stdISO8601ColonTZ v =
     (if length v \<ge> 1 \<and> v ! 0 = CHR ''Z'' then Inr (0, drop 1 v)
      else if length v < 6 then Inl (CannotParse ''Z07:00'' v)
      else if v ! 3 \<noteq> CHR '':'' then Inl (CannotParse ''Z07:00'' v)
      else and_then (zone_offset ''Z07:00'' v (v ! 0) (take 2 (drop 1 v)) (take 2 (drop 4 v)))
             (\<lambda>off. Inr (off, drop 6 v)))"

text \<open>
  \<open>Parse\<close> for a layout of the shape date, literal, clock, literal, zone: the
  elements in the order of the layout, then the test for text left over, the
  validation of the day of the month, and the instant: the civil time in UTC
  moved by the offset, in a location with that offset.
\<close>

definition Parse_layout ::
  "string \<Rightarrow> string \<Rightarrow> (string \<Rightarrow> ParseError + (int \<times> string)) \<Rightarrow> string \<Rightarrow> ParseError + Time" where
  "Parse_layout sep1 sep2 tz v0 =
     and_then (stdLongYear v0) (\<lambda>(year, v).
     and_then (lit ''-'' v) (\<lambda>v.
     and_then (stdZeroMonth v) (\<lambda>(month, v).
     and_then (lit ''-'' v) (\<lambda>v.
     and_then (stdZeroDay v) (\<lambda>(day, v).
     and_then (lit sep1 v) (\<lambda>v.
     and_then (stdHour v) (\<lambda>(hour, v).
     and_then (lit '':'' v) (\<lambda>v.
     and_then (stdZeroMinute v) (\<lambda>(minute, v).
     and_then (lit '':'' v) (\<lambda>v.
     and_then (stdZeroSecond v) (\<lambda>((second, ns), v).
     and_then (lit sep2 v) (\<lambda>v.
     and_then (tz v) (\<lambda>(zoneOffset, v).
       if v \<noteq> [] then Inl (ExtraText v)
       else if day < 1 \<or> day > daysIn month year then Inl (OutOfRange ''day'')
       else (let t = Date year month day hour minute second ns
             in Inr (t\<lparr>sec := sec t - zoneOffset, zone := zoneOffset\<rparr>)))))))))))))))"

text \<open>\<open>time.Parse("2006-01-02 15:04:05 -0700", value)\<close>, the call of \<open>Commit\<close>.\<close>

definition time_Parse :: "string \<Rightarrow> ParseError + Time" where
  "time_Parse v = Parse_layout '' '' '' '' stdNumTZ v"

text \<open>The conversion back of the round trip of the commit time is no code of the
  repository: it is the library's \<open>time.Parse(time.RFC3339, value)\<close>, layout
  \<open>2006-01-02T15:04:05Z07:00\<close>.\<close>

definition Parse_RFC3339 :: "string \<Rightarrow> ParseError + Time" where
  "Parse_RFC3339 v = Parse_layout ''T'' [] stdISO8601ColonTZ v"

subsection \<open>Commit\<close>

text \<open>\<open>strings.TrimSpace\<close>, for the white space of ASCII (the library also cuts
  the white space of Unicode beyond it).\<close>

definition isSpace :: "char \<Rightarrow> bool" where
  "isSpace c = (c \<in> {CHR 0x09, CHR 0x0A, CHR 0x0B, CHR 0x0C, CHR 0x0D, CHR 0x20})"

definition TrimSpace :: "string \<Rightarrow> string" where
  "TrimSpace s = rev (dropWhile isSpace (rev (dropWhile isSpace s)))"

text \<open>\<open>strings.Split(s, sep)\<close> for a separator of one byte: the fields between
  the separators, one more than there are separators.\<close>

fun Split :: "string \<Rightarrow> char \<Rightarrow> string list" where
  "Split [] sep = [[]]"
| "Split (c # s) sep =
     (if c = sep then [] # Split s sep
      else (case Split s sep of [] \<Rightarrow> [[c]] | f # fs \<Rightarrow> (c # f) # fs))"

text \<open>The lines of \<open>Commit\<close> after the query: \<open>ss[0]\<close> and \<open>ss[1]\<close> are read with
  the bounds check of the Go runtime.\<close>

definition Commit_parse :: "string \<Rightarrow> abort + (string \<times> string)" where
  "Commit_parse out =
     (let line = TrimSpace out;
          ss = Split line (CHR ''@'')
      in if length ss \<le> 0 then Inl (RuntimePanic (IndexOutOfRange 0 (length ss)))
         else if length ss \<le> 1 then Inl (RuntimePanic (IndexOutOfRange 1 (length ss)))
         else (case time_Parse (ss ! 1) of
                 Inl err \<Rightarrow>
                   Inl (Panic [Str ''Failed to parse time: '', Str (ss ! 1), Str '' : '', ParseErr err])
               | Inr tm \<Rightarrow> Inr (ss ! 0, Format_RFC3339 (UTC tm))))"

definition Commit :: "shell \<Rightarrow> gitVcsHandle \<Rightarrow> abort + (string \<times> string)" where
  "Commit sh vcs =
     and_then (run sh vcs [''add'', ''-A'']) (\<lambda>_.
     and_then (run sh vcs [''commit'', ''-a'', ''-m'', ''msg'']) (\<lambda>_.
     and_then (run sh vcs [''show'', ''--pretty=format:%H@%ai'', ''-s'']) (\<lambda>out.
     Commit_parse out)))"

subsection \<open>NewHttpHandler\<close>

text \<open>
  What the operating system answers to \<open>NewHttpHandler\<close>: the listener of
  \<open>net.Listen("tcp", "localhost:0")\<close> (\<open>Inl\<close> its error, \<open>Inr\<close> the address it is
  bound to), the path \<open>exec.LookPath\<close> finds for a name (empty when it finds
  none), the second listener, of \<open>freePort\<close> (\<open>Inr\<close> its port), and the daemon.
\<close>

record os_env =
  listen :: "string + string"
  LookPath :: "string \<Rightarrow> string"
  listen_port :: "string + nat"
  daemon :: proc_env

definition freePort :: "os_env \<Rightarrow> abort + nat" where
  "freePort env =
     (case listen_port env of
        Inl err \<Rightarrow> Inl (Fatalf ''Failed to find free port %v'' [Err err])
      | Inr port \<Rightarrow> Inr port)"

text \<open>
  The constructor: nil (\<open>Inr None\<close>) when the listener fails, before anything
  else is done. The goroutine that serves HTTP on the listener is the handler
  \<open>ServeHTTP\<close> above; it is not part of the value returned.
\<close>

definition NewHttpHandler ::
  "os_env \<Rightarrow> GopathTest \<Rightarrow> string \<Rightarrow> GopathTest \<times> (abort + HttpHandler option)" where
  "NewHttpHandler env g name =
     (case listen env of
        Inl err \<Rightarrow> (g, Inr None)
      | Inr addr \<Rightarrow>
          (let h = \<lparr>execPath = [], cwd = Current g, httpAddr = addr, vcsAddr = [],
                    vcsName = name, h_pkg = g_pkg g, handles = Map.empty\<rparr>;
               path = LookPath env name
           in if length path = 0 then (g, Inl (Skip ''unsupported vcs''))
              else
                (let h = h\<lparr>execPath := path\<rparr> in
                 if name = ''git'' then
                   (case freePort env of
                      Inl e \<Rightarrow> (g, Inl e)
                    | Inr port \<Rightarrow>
                        (let h = h\<lparr>vcsAddr := ''git://localhost:'' @ decimal port @ ''/''\<rparr>;
                             (g', n, r) =
                               runAsync (daemon env) g h '' Ready ''
                                 [''daemon'', ''--listen=localhost'', ''--port='' @ decimal port,
                                  ''--export-all'', ''--verbose'', ''--informative-errors'',
                                  ''--base-path='' @ Path_root g, cwd h]
                         in (g', and_then r (\<lambda>_. Inr (Some h)))))
                 else (g, Inl (Panic [Str ''unknown vcs type''])))))"

subsection \<open>Example values\<close>

text \<open>A handler as \<open>NewHttpHandler\<close> and one \<open>Setup\<close> leave it in the end-to-end
  scenario of package \<open>example.org/mod\<close>, and the test context it belongs to.\<close>

definition example_handle :: gitVcsHandle where
  "example_handle =
     \<lparr>execPath = ''/usr/bin/git'', cwd = ''/tmp/gopath/src/example.org/mod'',
      importPath = ''example.org/mod''\<rparr>"

definition example_handler :: HttpHandler where
  "example_handler =
     \<lparr>execPath = ''/usr/bin/git'', cwd = ''/tmp/gopath/src/example.org/mod'',
      httpAddr = ''127.0.0.1:8080'', vcsAddr = ''git://localhost:9418/'', vcsName = ''git'',
      h_pkg = ''example.org/mod'', handles = [''example.org/mod'' \<mapsto> example_handle]\<rparr>"

definition example_test :: GopathTest where
  "example_test =
     \<lparr>g_pkg = ''example.org/mod'', Current = ''/tmp/gopath/src/example.org/mod'',
      Path_root = ''/tmp/gopath'', cleanups = []\<rparr>"

text \<open>A handle registered earlier under the same package path, from another
  directory.\<close>

definition other_handle :: gitVcsHandle where
  "other_handle =
     \<lparr>execPath = ''/usr/bin/git'', cwd = ''/tmp/gopath/src/example.org/old'',
      importPath = ''example.org/mod''\<rparr>"

text \<open>A shell in which every command succeeds and prints nothing.\<close>

definition quiet_shell :: shell where
  "quiet_shell exe dir args = Inr []"

text \<open>A subprocess that starts, keeps running and never prints the marker.\<close>

definition never_ready :: proc_env where
  "never_ready =
     \<lparr>start_error = None, pid = 4711,
      seen = (\<lambda>i. \<lparr>alive = True,
                       holds = (\<lambda>st. case st of Stdout \<Rightarrow> ''OUT'' | Stderr \<Rightarrow> ''ERR'')\<rparr>)\<rparr>"

text \<open>An operating system that has no port to listen on.\<close>

definition no_listener :: os_env where
  "no_listener =
     \<lparr>listen = Inl ''listen tcp 127.0.0.1:0: bind: address already in use'',
      LookPath = (\<lambda>name. ''/usr/bin/'' @ name),
      listen_port = Inr 9418,
      daemon = never_ready\<rparr>"

text \<open>A subprocess that has printed the marker on its standard error and is gone
  before the first turn of the polling loop.\<close>

definition ready_but_gone :: proc_env where
  "ready_but_gone =
     \<lparr>start_error = None, pid = 4711,
      seen = (\<lambda>i. \<lparr>alive = False,
                       holds = (\<lambda>st. case st of Stdout \<Rightarrow> []
                                                 | Stderr \<Rightarrow> ''[4711] Ready to rumble'')\<rparr>)\<rparr>"

text \<open>A shell whose every command prints a revision and no commit time.\<close>

definition no_separator_shell :: shell where
  "no_separator_shell exe dir args = Inr (''deadbeef'' @ [newline])"

text \<open>A cleanup in which the process ends within the 300 milliseconds.\<close>

definition stopped_in_time :: stop_env where
  "stopped_in_time =
     \<lparr>wait_returns = True,
      final = (\<lambda>st. case st of Stdout \<Rightarrow> ''OUT'' | Stderr \<Rightarrow> ''ERR'')\<rparr>"

text \<open>The command \<open>runAsync\<close> starts for \<open>example_handler\<close> with the argument
  \<open>daemon\<close>.\<close>

definition example_cmd :: Cmd where
  "example_cmd =
     \<lparr>Path = ''/usr/bin/git'', Args = [''/usr/bin/git'', ''daemon''],
      Dir = ''/tmp/gopath/src/example.org/mod'', Process = Some 4711, ProcessState = None\<rparr>"

subsection \<open>Predicates of the statements\<close>

text \<open>One of the two buffers contains the marker.\<close>

definition marker_seen :: "string \<Rightarrow> observation \<Rightarrow> bool" where
  "marker_seen cf ob = (Contains (holds ob Stdout) cf \<or> Contains (holds ob Stderr) cf)"

text \<open>The time of the commit as \<open>Commit\<close> returns it names a year: \<open>t.Year()\<close>.\<close>

definition Year :: "Time \<Rightarrow> int" where
  "Year t = fst (absDate ((sec t + zone t) div 86400))"

text \<open>Month \<open>m\<close> and day \<open>d\<close> are the date of day \<open>day\<close> of a year that is no
  leap year: the day lies in the month, and March begins with day 59.\<close>

definition month_ok :: "nat \<Rightarrow> nat \<Rightarrow> nat \<Rightarrow> bool" where
  "month_ok day m d =
     (1 \<le> m \<and> m \<le> 12 \<and> 1 \<le> d \<and> daysBefore ! (m - 1) + d \<le> daysBefore ! m \<and>
      daysBefore ! (m - 1) + d = Suc day \<and> (59 \<le> day \<longleftrightarrow> 3 \<le> m))"

text \<open>
  The timestamps of the pattern \<open>YYYY-MM-DD HH:MM:SS \<plusminus>HHMM\<close>, by their fields:
  four digits of year, two digits each of month, day, hour, minute and second,
  the sign and twice two digits of the offset. The fields are valid when they are
  in the ranges \<open>time.Parse\<close> demands: a day of the calendar, a time of the day,
  and an offset of at most 24 hours and 60 minutes.
\<close>

definition backend_timestamp ::
  "nat \<Rightarrow> nat \<Rightarrow> nat \<Rightarrow> nat \<Rightarrow> nat \<Rightarrow> nat \<Rightarrow> bool \<Rightarrow> nat \<Rightarrow> nat \<Rightarrow> string" where
  "backend_timestamp y mo d h mi s east zh zm =
     appendInt (int y) 4 @ ''-'' @ appendInt (int mo) 2 @ ''-'' @ appendInt (int d) 2
     @ '' '' @ appendInt (int h) 2 @ '':'' @ appendInt (int mi) 2 @ '':'' @ appendInt (int s) 2
     @ '' '' @ (if east then ''+'' else ''-'') @ appendInt (int zh) 2 @ appendInt (int zm) 2"

definition valid_fields ::
  "nat \<Rightarrow> nat \<Rightarrow> nat \<Rightarrow> nat \<Rightarrow> nat \<Rightarrow> nat \<Rightarrow> nat \<Rightarrow> nat \<Rightarrow> bool" where
  "valid_fields y mo d h mi s zh zm =
     (y < 10000 \<and> 1 \<le> mo \<and> mo \<le> 12 \<and> 1 \<le> d \<and> d \<le> daysIn mo (int y) \<and>
      h < 24 \<and> mi < 60 \<and> s < 60 \<and> zh \<le> 24 \<and> zm \<le> 60)"

text \<open>The instant a timestamp of the pattern denotes: its civil time taken as
  UTC, moved west by the offset.\<close>

definition offset_seconds :: "bool \<Rightarrow> nat \<Rightarrow> nat \<Rightarrow> int" where
  "offset_seconds east zh zm =
     (if east then int ((zh * 60 + zm) * 60) else - int ((zh * 60 + zm) * 60))"

definition denoted :: "nat \<Rightarrow> nat \<Rightarrow> nat \<Rightarrow> nat \<Rightarrow> nat \<Rightarrow> nat \<Rightarrow> bool \<Rightarrow> nat \<Rightarrow> nat \<Rightarrow> Time" where
  "denoted y mo d h mi s east zh zm =
     \<lparr>sec = sec (Date (int y) mo d h mi s 0) - offset_seconds east zh zm,
      nsec = 0, zone = offset_seconds east zh zm\<rparr>"

section \<open>Properties\<close>

subsection \<open>Routing: the answer of ServeHTTP\<close>

lemma range_handles_None:
  "range_handles hs ks p = None \<longleftrightarrow>
     (\<forall>k\<in>set ks. \<forall>v. hs k = Some v \<longrightarrow> \<not> HasPrefix p (pkg v))"
  by (induction ks) (auto split: option.splits)

lemma range_handles_Some:
  "range_handles hs ks p = Some v \<Longrightarrow> (\<exists>k\<in>set ks. hs k = Some v) \<and> HasPrefix p (pkg v)"
  by (induction ks) (auto split: option.splits if_splits)

text \<open>Every entry of a table the code builds sits under the package path of its
  handle.\<close>

lemma reachable_key: "reachable hs \<Longrightarrow> hs k = Some v \<Longrightarrow> pkg v = k"
  by (induction arbitrary: k v rule: reachable.induct) (auto split: if_splits)

text \<open>
  Claim C1. Whatever the order in which the loop visits the routing table: when
  the package path of some registered handle is a prefix of the request path
  without its one leading slash, the answer is 200 and its body is the go-import
  document of a registered handle whose package path is such a prefix, followed
  by a newline; when no registered package path is a prefix, the answer is 404
  with the plain text \<open>repo not found\<close> (which \<open>http.Error\<close> ends with a newline).
\<close>

theorem ServeHTTP_go_import:
  assumes "visits (handles h) ks"
  shows "if (\<exists>vcs\<in>ran (handles h). HasPrefix (TrimPrefix path ''/'') (pkg vcs))
         then (\<exists>vcs\<in>ran (handles h). HasPrefix (TrimPrefix path ''/'') (pkg vcs) \<and>
                 ServeHTTP h ks path =
                   \<lparr>status = 200, contentType = ''text/html; charset=utf-8'',
                    body = ''<html><head><meta name='' @ [dquote] @ ''go-import'' @ [dquote]
                             @ '' content='' @ [dquote]
                             @ httpAddr h @ ''/'' @ pkg vcs @ '' '' @ vcsName h @ '' ''
                             @ vcsAddr h @ pkg vcs @ ''/.git''
                             @ [dquote] @ ''></head></html>'' @ [newline]\<rparr>)
         else ServeHTTP h ks path =
                \<lparr>status = 404, contentType = ''text/plain; charset=utf-8'',
                 body = ''repo not found'' @ [newline]\<rparr>"
proof (cases "range_handles (handles h) ks (TrimPrefix path ''/'')")
  case None
  with assms have "\<not> (\<exists>vcs\<in>ran (handles h). HasPrefix (TrimPrefix path ''/'') (pkg vcs))"
    unfolding range_handles_None visits_def ran_def by auto
  with None show ?thesis
    by (simp add: ServeHTTP_def http_Error_def)
next
  case (Some v)
  from range_handles_Some [OF Some]
  have v: "v \<in> ran (handles h)" "HasPrefix (TrimPrefix path ''/'') (pkg v)"
    by (auto simp: ran_def)
  have "ServeHTTP h ks path =
          http_Write (templ (httpAddr h @ ''/'' @ pkg v) (vcsName h) (vcsAddr h @ pkg v @ ''/.git''))"
    using Some by (simp add: ServeHTTP_def)
  with v show ?thesis
    by (auto simp: http_Write_def templ_def intro!: bexI [of _ v])
qed

theorem ServeHTTP_go_import_witness:
  "visits (handles example_handler) [''example.org/mod''] \<and>
   ServeHTTP example_handler [''example.org/mod''] ''/example.org/mod/sub'' =
     \<lparr>status = 200, contentType = ''text/html; charset=utf-8'',
      body = ''<html><head><meta name='' @ [dquote] @ ''go-import'' @ [dquote]
               @ '' content='' @ [dquote]
               @ ''127.0.0.1:8080/example.org/mod git git://localhost:9418/example.org/mod/.git''
               @ [dquote] @ ''></head></html>'' @ [newline]\<rparr> \<and>
   ServeHTTP example_handler [''example.org/mod''] ''/example.com/other'' =
     \<lparr>status = 404, contentType = ''text/plain; charset=utf-8'',
      body = ''repo not found'' @ [newline]\<rparr>"
proof -
  have v: "visits (handles example_handler) [''example.org/mod'']"
    by (simp add: visits_def example_handler_def)
  have r: "ran (handles example_handler) = {example_handle}"
    by (simp add: example_handler_def)
  show ?thesis
    using v ServeHTTP_go_import [OF v, of "''/example.org/mod/sub''"]
      ServeHTTP_go_import [OF v, of "''/example.com/other''"]
    by (simp add: r TrimPrefix_def HasPrefix_def pkg_def example_handle_def example_handler_def)
qed

text \<open>
  Claim C7. In a routing table the code has built, once the removal of a handle
  \<open>H\<close> has run, a request whose path matched no package path but that of \<open>H\<close> is
  answered 404, in whatever order the loop visits what is left of the table.
\<close>

theorem removed_handle_not_found:
  assumes "reachable (handles h)"
    and "visits (handles (remove h H)) ks"
    and "\<forall>vcs\<in>ran (handles h). HasPrefix (TrimPrefix path ''/'') (pkg vcs) \<longrightarrow> pkg vcs = pkg H"
  shows "ServeHTTP (remove h H) ks path =
           \<lparr>status = 404, contentType = ''text/plain; charset=utf-8'',
            body = ''repo not found'' @ [newline]\<rparr>"
proof -
  have "range_handles (handles (remove h H)) ks (TrimPrefix path ''/'') = None"
    unfolding range_handles_None
  proof (intro ballI allI impI)
    fix k v assume "k \<in> set ks" and kv: "handles (remove h H) k = Some v"
    then have k: "k \<noteq> pkg H" and hv: "handles h k = Some v"
      by (auto simp: remove_def split: if_splits)
    from reachable_key [OF assms(1) hv] k have "pkg v \<noteq> pkg H" by simp
    moreover from hv have "v \<in> ran (handles h)" by (auto simp: ran_def)
    ultimately show "\<not> HasPrefix (TrimPrefix path ''/'') (pkg v)"
      using assms(3) by blast
  qed
  then show ?thesis by (simp add: ServeHTTP_def http_Error_def)
qed

theorem removed_handle_not_found_witness:
  "reachable (handles example_handler) \<and>
   visits (handles (remove example_handler example_handle)) [] \<and>
   ran (handles example_handler) = {example_handle} \<and>
   HasPrefix (TrimPrefix ''/example.org/mod/sub'' ''/'') (pkg example_handle) \<and>
   ServeHTTP (remove example_handler example_handle) [] ''/example.org/mod/sub'' =
     \<lparr>status = 404, contentType = ''text/plain; charset=utf-8'',
      body = ''repo not found'' @ [newline]\<rparr>"
proof -
  have "reachable (Map.empty(pkg example_handle \<mapsto> example_handle))"
    by (rule reachable.registered) (rule reachable.made)
  then have a: "reachable (handles example_handler)"
    by (simp add: example_handler_def pkg_def example_handle_def)
  have b: "visits (handles (remove example_handler example_handle)) []"
    by (simp add: visits_def remove_def example_handler_def pkg_def example_handle_def)
  have c: "\<forall>vcs\<in>ran (handles example_handler).
      HasPrefix (TrimPrefix ''/example.org/mod/sub'' ''/'') (pkg vcs) \<longrightarrow> pkg vcs = pkg example_handle"
    by (simp add: example_handler_def)
  have d: "HasPrefix (TrimPrefix ''/example.org/mod/sub'' ''/'') (pkg example_handle)"
    by (simp add: TrimPrefix_def HasPrefix_def pkg_def example_handle_def)
  have e: "ran (handles example_handler) = {example_handle}"
    by (simp add: example_handler_def)
  from a b d e removed_handle_not_found [OF a b c] show ?thesis by simp
qed

subsection \<open>Routing: registration\<close>

text \<open>
  Claim C10. The routing table is keyed by package path, so in a table the code
  has built two entries never carry the same package path, before \<open>Setup\<close> and
  after it; and \<open>Setup\<close>, called while a handle is registered under the package
  path of the new one, succeeds as it does otherwise, puts the new handle in the
  place of the old one, and leaves the set of registered package paths as it was.
\<close>

theorem Setup_replaces:
  assumes "reachable (handles h)"
    and "create sh (gitNewer g h) = Inr ()"
    and "handles h (g_pkg g) = Some old"
  shows "(\<forall>k1 k2 v1 v2. handles h k1 = Some v1 \<and> handles h k2 = Some v2 \<and> k1 \<noteq> k2
            \<longrightarrow> pkg v1 \<noteq> pkg v2) \<and>
         (\<exists>g' h'. Setup sh g h = (g', h', Inr (gitNewer g h)) \<and>
            handles h' = (handles h)(g_pkg g \<mapsto> gitNewer g h) \<and>
            dom (handles h') = dom (handles h) \<and>
            (\<forall>k1 k2 v1 v2. handles h' k1 = Some v1 \<and> handles h' k2 = Some v2 \<and> k1 \<noteq> k2
               \<longrightarrow> pkg v1 \<noteq> pkg v2))"
proof (rule conjI)
  show "\<forall>k1 k2 v1 v2. handles h k1 = Some v1 \<and> handles h k2 = Some v2 \<and> k1 \<noteq> k2
          \<longrightarrow> pkg v1 \<noteq> pkg v2"
    using reachable_key [OF assms(1)] by metis
next
  let ?vcs = "gitNewer g h"
  let ?hs = "(handles h)(g_pkg g \<mapsto> ?vcs)"
  have p: "pkg ?vcs = g_pkg g" by (simp add: pkg_def gitNewer_def)
  have s: "Setup sh g h = (onClean g (remove_handle ?vcs), h\<lparr>handles := ?hs\<rparr>, Inr ?vcs)"
    using assms(2) by (simp add: Setup_def Let_def p)
  have "reachable ((handles h)(pkg ?vcs \<mapsto> ?vcs))"
    using assms(1) by (rule reachable.registered)
  then have r: "reachable ?hs" by (simp add: p)
  have d: "dom ?hs = dom (handles h)" using assms(3) by auto
  have "pkg v1 \<noteq> pkg v2" if "?hs k1 = Some v1" "?hs k2 = Some v2" "k1 \<noteq> k2" for k1 k2 v1 v2
    using reachable_key [OF r that(1)] reachable_key [OF r that(2)] that(3) by simp
  then have u: "\<forall>k1 k2 v1 v2. ?hs k1 = Some v1 \<and> ?hs k2 = Some v2 \<and> k1 \<noteq> k2
                  \<longrightarrow> pkg v1 \<noteq> pkg v2"
    by blast
  show "\<exists>g' h'. Setup sh g h = (g', h', Inr (gitNewer g h)) \<and>
            handles h' = (handles h)(g_pkg g \<mapsto> gitNewer g h) \<and>
            dom (handles h') = dom (handles h) \<and>
            (\<forall>k1 k2 v1 v2. handles h' k1 = Some v1 \<and> handles h' k2 = Some v2 \<and> k1 \<noteq> k2
               \<longrightarrow> pkg v1 \<noteq> pkg v2)"
  proof (intro exI conjI)
    show "Setup sh g h = (onClean g (remove_handle ?vcs), h\<lparr>handles := ?hs\<rparr>, Inr ?vcs)"
      by (rule s)
    show "handles (h\<lparr>handles := ?hs\<rparr>) = ?hs" by simp
    show "dom (handles (h\<lparr>handles := ?hs\<rparr>)) = dom (handles h)" using d by simp
    show "\<forall>k1 k2 v1 v2. handles (h\<lparr>handles := ?hs\<rparr>) k1 = Some v1
             \<and> handles (h\<lparr>handles := ?hs\<rparr>) k2 = Some v2 \<and> k1 \<noteq> k2
             \<longrightarrow> pkg v1 \<noteq> pkg v2"
      using u by simp
  qed
qed

theorem Setup_replaces_witness:
  "reachable (handles (example_handler\<lparr>handles := [''example.org/mod'' \<mapsto> other_handle]\<rparr>)) \<and>
   create quiet_shell (gitNewer example_test example_handler) = Inr () \<and>
   other_handle \<noteq> example_handle \<and>
   (\<exists>g' h'. Setup quiet_shell example_test
              (example_handler\<lparr>handles := [''example.org/mod'' \<mapsto> other_handle]\<rparr>)
              = (g', h', Inr example_handle) \<and>
            handles h' = [''example.org/mod'' \<mapsto> example_handle])"
proof -
  let ?h = "example_handler\<lparr>handles := [''example.org/mod'' \<mapsto> other_handle]\<rparr>"
  have "reachable (Map.empty(pkg other_handle \<mapsto> other_handle))"
    by (rule reachable.registered) (rule reachable.made)
  then have a: "reachable (handles ?h)"
    by (simp add: pkg_def other_handle_def)
  have n: "gitNewer example_test ?h = example_handle"
    by (simp add: gitNewer_def example_test_def example_handler_def example_handle_def)
  have n': "gitNewer example_test example_handler = example_handle"
    by (simp add: gitNewer_def example_test_def example_handler_def example_handle_def)
  have b: "create quiet_shell (gitNewer example_test ?h) = Inr ()"
    by (simp add: create_def run_def quiet_shell_def and_then_def)
  have b': "create quiet_shell (gitNewer example_test example_handler) = Inr ()"
    by (simp add: create_def run_def quiet_shell_def and_then_def)
  have c: "handles ?h (g_pkg example_test) = Some other_handle"
    by (simp add: example_test_def)
  have d: "other_handle \<noteq> example_handle"
    by (simp add: other_handle_def example_handle_def)
  have k: "g_pkg example_test = ''example.org/mod''"
    by (simp add: example_test_def)
  from conjunct2 [OF Setup_replaces [OF a b c]] obtain g' h' where
    s: "Setup quiet_shell example_test ?h = (g', h', Inr (gitNewer example_test ?h))"
    and t: "handles h' = (handles ?h)(g_pkg example_test \<mapsto> gitNewer example_test ?h)"
    by blast
  from t have "handles h' = [''example.org/mod'' \<mapsto> example_handle]"
    unfolding n k by simp
  with s [unfolded n] have "\<exists>g' h'. Setup quiet_shell example_test ?h = (g', h', Inr example_handle) \<and>
            handles h' = [''example.org/mod'' \<mapsto> example_handle]"
    by blast
  with a b' d show ?thesis by blast
qed

subsection \<open>Construction of the harness\<close>

text \<open>
  Claim C5. When the listener cannot be acquired, \<open>NewHttpHandler\<close> returns nil:
  it does not abort (no \<open>Fatalf\<close>, no panic), leaves the test context as it was,
  and tries nothing else, whatever the rest of the environment offers. The nil
  handler is the signal on which the caller skips the test.
\<close>

theorem NewHttpHandler_without_listener:
  "listen env = Inl err \<Longrightarrow> NewHttpHandler env g name = (g, Inr None)"
  by (simp add: NewHttpHandler_def)

theorem NewHttpHandler_without_listener_witness:
  "(\<exists>err. listen no_listener = Inl err) \<and>
   NewHttpHandler no_listener example_test ''git'' = (example_test, Inr None)"
proof -
  have l: "listen no_listener = Inl ''listen tcp 127.0.0.1:0: bind: address already in use''"
    by (simp add: no_listener_def)
  from l NewHttpHandler_without_listener [OF l, of example_test "''git''"]
  show ?thesis by simp
qed

subsection \<open>The polling loop of runAsync\<close>

text \<open>The loop makes at most one hundred sleeps of ten milliseconds.\<close>

lemma poll_bounded: "fst (poll exe args cf cmd buf bufErr obs i) \<le> 100 - i"
proof (induction exe args cf cmd buf bufErr obs i rule: poll.induct)
  case (1 exe args cf cmd buf bufErr obs i)
  show ?case
  proof (cases "i < 100 \<and> \<not> exited cmd \<and> \<not> Contains (Buffer_String (holds (obs i)) buf) cf
                 \<and> \<not> Contains (Buffer_String (holds (obs i)) bufErr) cf")
    case True
    with "1.IH" have "fst (poll exe args cf cmd buf bufErr obs (Suc i)) \<le> 100 - Suc i" by simp
    with True have "Suc (fst (poll exe args cf cmd buf bufErr obs (Suc i))) \<le> 100 - i" by arith
    with True show ?thesis
      by (subst poll.simps) (simp add: split_beta)
  next
    case False
    then show ?thesis
      by (subst poll.simps) auto
  qed
qed

text \<open>Were \<open>cmd.ProcessState\<close> set, the first turn would fail with both buffers.\<close>

lemma poll_exited:
  "exited cmd \<Longrightarrow> i < 100 \<Longrightarrow>
   poll exe args cf cmd (Some Stdout) (Some Stderr) obs i =
     (0, Inl (Fatalf unexpected_stop
                [Str exe, Strs args, Bytes (holds (obs i) Stdout), Bytes (holds (obs i) Stderr)]))"
  by (subst poll.simps) (simp add: Buffer_Bytes_def and_then_def)

text \<open>With \<open>cmd.ProcessState\<close> nil, the loop returns at the first turn at which a
  buffer contains the marker, and fails after turn 99 when none does.\<close>

lemma poll_marker:
  assumes "\<not> exited cmd" and "k < 100" and "marker_seen cf (obs k)"
    and "\<forall>j. i \<le> j \<and> j < k \<longrightarrow> \<not> marker_seen cf (obs j)" and "i \<le> k"
  shows "poll exe args cf cmd (Some Stdout) (Some Stderr) obs i = (k - i, Inr ())"
  using assms(4,5)
proof (induction "k - i" arbitrary: i)
  case 0
  then have "i = k" by simp
  with assms(1,2,3) show ?case
    by (subst poll.simps) (auto simp: Buffer_String_def marker_seen_def)
next
  case (Suc n)
  then have i: "i < k" "n = k - Suc i" "Suc i \<le> k" by simp_all
  from Suc.prems i have no: "\<not> marker_seen cf (obs i)" by simp
  from Suc.prems have "\<forall>j. Suc i \<le> j \<and> j < k \<longrightarrow> \<not> marker_seen cf (obs j)" by simp
  from Suc.hyps(1) [OF i(2) this i(3)]
  have "poll exe args cf cmd (Some Stdout) (Some Stderr) obs (Suc i) = (k - Suc i, Inr ())" .
  with no assms(1,2) i show ?case
    by (subst poll.simps) (simp add: Buffer_String_def marker_seen_def Suc_diff_Suc)
qed

lemma poll_exhausted:
  assumes "\<not> exited cmd"
    and "\<forall>j. i \<le> j \<and> j < 100 \<longrightarrow> \<not> marker_seen cf (obs j)" and "i \<le> 100"
  shows "poll exe args cf cmd (Some Stdout) (Some Stderr) obs i =
           (100 - i, Inl (Fatalf failed_to_read
                            [Str cf, Str exe, Strs args, Bytes (holds (obs 100) Stderr)]))"
  using assms(2,3)
proof (induction "100 - i" arbitrary: i)
  case 0
  then have "i = 100" by simp
  then show ?case
    by (subst poll.simps) (simp add: Buffer_Bytes_def and_then_def)
next
  case (Suc n)
  then have i: "i < 100" "n = 100 - Suc i" "Suc i \<le> 100" by simp_all
  from Suc.prems i have no: "\<not> marker_seen cf (obs i)" by simp
  from Suc.prems have "\<forall>j. Suc i \<le> j \<and> j < 100 \<longrightarrow> \<not> marker_seen cf (obs j)" by simp
  from Suc.hyps(1) [OF i(2) this i(3)]
  have "poll exe args cf cmd (Some Stdout) (Some Stderr) obs (Suc i) =
          (100 - Suc i, Inl (Fatalf failed_to_read
                            [Str cf, Str exe, Strs args, Bytes (holds (obs 100) Stderr)]))" .
  with no assms(1) i show ?case
    by (subst poll.simps) (simp add: Buffer_String_def marker_seen_def Suc_diff_Suc)
qed

lemma Start_not_exited:
  "Start env ((exec_Command name args)\<lparr>Dir := d\<rparr>) = Inr cmd \<Longrightarrow> \<not> exited cmd"
  by (auto simp: Start_def exec_Command_def exited_def split: option.splits)

lemma formats_differ: "failed_to_read \<noteq> unexpected_stop"
  by (simp add: failed_to_read_def unexpected_stop_def)

lemma poll_no_unexpected_stop:
  "\<not> exited cmd \<Longrightarrow>
   snd (poll exe args cf cmd buf bufErr obs i) \<noteq> Inl (Fatalf unexpected_stop ops)"
proof (induction exe args cf cmd buf bufErr obs i rule: poll.induct)
  case (1 exe args cf cmd buf bufErr obs i)
  show ?case
  proof (cases "i < 100 \<and> \<not> Contains (Buffer_String (holds (obs i)) buf) cf
                 \<and> \<not> Contains (Buffer_String (holds (obs i)) bufErr) cf")
    case True
    with "1.IH" "1.prems"
    have "snd (poll exe args cf cmd buf bufErr obs (Suc i)) \<noteq> Inl (Fatalf unexpected_stop ops)"
      by simp
    with True "1.prems" show ?thesis
      by (subst poll.simps) (simp add: split_beta)
  next
    case False
    with "1.prems" show ?thesis
      by (subst poll.simps)
         (auto simp: and_then_def Buffer_Bytes_def formats_differ split: option.splits)
  qed
qed

lemma runAsync_never_unexpected_stop:
  "snd (snd (runAsync env g r cf args)) \<noteq> Inl (Fatalf unexpected_stop ops)"
proof (cases "Start env ((exec_Command (execPath r) args)\<lparr>Dir := Current g\<rparr>)")
  case (Inl err)
  then show ?thesis
    by (simp add: runAsync_def unexpected_stop_def)
next
  case (Inr cmd)
  from Start_not_exited [OF Inr]
  have "snd (poll (execPath r) args cf cmd (Some Stdout) (Some Stderr) (seen env) 0)
          \<noteq> Inl (Fatalf unexpected_stop ops)"
    by (rule poll_no_unexpected_stop)
  with Inr show ?thesis
    by (auto simp: runAsync_def Let_def split_beta and_then_def split: sum.splits)
qed

text \<open>
  Claim C3. The marker is \<open>Ready\<close> between two spaces, the process keeps running,
  its standard output holds \<open>OUT\<close> and its standard error \<open>ERR\<close>, and neither
  contains the marker. After one hundred turns \<open>runAsync\<close> fails through \<open>Fatalf\<close>,
  and the operands of the diagnostic are the marker, the executable, the
  arguments and the standard error: the standard output is not among them.
\<close>

theorem runAsync_exhausted_diagnostic:
  "runAsync never_ready example_test example_handler '' Ready '' [''daemon''] =
     (onClean example_test (stop_process example_cmd (Some Stdout) (Some Stderr)),
      100,
      Inl (Fatalf failed_to_read
             [Str '' Ready '', Str ''/usr/bin/git'', Strs [''daemon''], Bytes ''ERR'']))"
proof -
  have c: "Start never_ready ((exec_Command ''/usr/bin/git'' [''daemon''])
             \<lparr>Dir := ''/tmp/gopath/src/example.org/mod''\<rparr>) = Inr example_cmd"
    by (simp add: Start_def never_ready_def exec_Command_def example_cmd_def)
  have e: "\<not> exited example_cmd" by (simp add: exited_def example_cmd_def)
  have m: "\<forall>j. 0 \<le> j \<and> j < 100 \<longrightarrow> \<not> marker_seen '' Ready '' (seen never_ready j)"
    by (simp add: marker_seen_def never_ready_def HasPrefix_def)
  have p: "poll ''/usr/bin/git'' [''daemon''] '' Ready '' example_cmd (Some Stdout) (Some Stderr)
             (seen never_ready) 0 =
           (100, Inl (Fatalf failed_to_read
              [Str '' Ready '', Str ''/usr/bin/git'', Strs [''daemon''], Bytes ''ERR'']))"
    using poll_exhausted [OF e m, of "''/usr/bin/git''" "[''daemon'']"]
    by (simp add: never_ready_def)
  show ?thesis
    by (simp add: runAsync_def c p and_then_def example_handler_def example_test_def)
qed

text \<open>
  Claim C8. The process has printed the marker and has ended before the first
  turn. \<open>runAsync\<close> returns the command as started, at the first turn and without a
  sleep: the test of \<open>cmd.ProcessState\<close> does not see the end of the process, since
  nothing has set the field.
\<close>

theorem runAsync_exit_unnoticed:
  "\<not> alive (seen ready_but_gone 0) \<and>
   runAsync ready_but_gone example_test example_handler '' Ready '' [''daemon''] =
     (onClean example_test (stop_process example_cmd (Some Stdout) (Some Stderr)),
      0, Inr example_cmd)"
proof -
  have c: "Start ready_but_gone ((exec_Command ''/usr/bin/git'' [''daemon''])
             \<lparr>Dir := ''/tmp/gopath/src/example.org/mod''\<rparr>) = Inr example_cmd"
    by (simp add: Start_def ready_but_gone_def exec_Command_def example_cmd_def)
  have e: "\<not> exited example_cmd" by (simp add: exited_def example_cmd_def)
  have m: "marker_seen '' Ready '' (seen ready_but_gone 0)"
    by (simp add: marker_seen_def ready_but_gone_def HasPrefix_def)
  have p: "poll ''/usr/bin/git'' [''daemon''] '' Ready '' example_cmd (Some Stdout) (Some Stderr)
             (seen ready_but_gone) 0 = (0, Inr ())"
    using poll_marker [where k = 0 and i = 0 and obs = "seen ready_but_gone", OF e _ m] by simp
  show ?thesis
    by (simp add: runAsync_def c p and_then_def example_handler_def example_test_def)
       (simp add: ready_but_gone_def)
qed

subsection \<open>The cleanup action of runAsync\<close>

text \<open>With captured output the action logs both buffers, after the signal and,
  when the wait does not return in time, the kill.\<close>

lemma run_stop_process_captured:
  "Process cmd = Some p \<Longrightarrow>
   run_stop_process env cmd (Some Stdout) (Some Stderr) =
     (Signal_Interrupt p # (if wait_returns env then [] else [Kill p])
        @ [Logf (''%q StdOut: %s'' @ [newline]) [Str (Path cmd), Bytes (final env Stdout)],
           Logf (''%q StdErr: %s'' @ [newline]) [Str (Path cmd), Bytes (final env Stderr)]],
      None)"
  by (simp add: run_stop_process_def Buffer_Bytes_def)

text \<open>
  Claim C4. \<open>runAsync\<close> with the empty marker starts the process, captures nothing
  and registers the cleanup action with both buffer pointers nil. Run on a
  process that ends in time, the action sends the signal and then panics on
  \<open>buf.Bytes()\<close> with a nil pointer dereference; it logs nothing.
\<close>

theorem cleanup_without_capture:
  "runAsync never_ready example_test example_handler [] [''daemon''] =
     (onClean example_test (stop_process example_cmd None None), 0, Inr example_cmd) \<and>
   run_cleanup stopped_in_time example_handler (stop_process example_cmd None None) =
     (example_handler, [Signal_Interrupt 4711], Some (RuntimePanic NilPointerDereference))"
  by (simp add: runAsync_def Start_def never_ready_def exec_Command_def example_cmd_def
      example_handler_def example_test_def run_cleanup_def run_stop_process_def Buffer_Bytes_def
      stopped_in_time_def)

subsection \<open>Commit\<close>

text \<open>
  Claim C2. The commit query answers a line with a revision and no \<open>@\<close>.
  \<open>strings.Split\<close> gives one field, and \<open>Commit\<close> ends in the run-time panic of
  reading \<open>ss[1]\<close> in a slice of length 1, before it comes to its own \<open>panic\<close>
  with the diagnostic.
\<close>

theorem Commit_without_separator:
  "Commit no_separator_shell example_handle = Inl (RuntimePanic (IndexOutOfRange 1 1))"
  by (simp add: Commit_def run_def no_separator_shell_def and_then_def Commit_parse_def
      TrimSpace_def isSpace_def newline_def)

subsection \<open>The commit time: digits written and read\<close>

lemma of_char_digit_char: "k < 10 \<Longrightarrow> (of_char (digit_char k) :: nat) = 48 + k"
  by (simp add: digit_char_def)

lemma digit_digit_char: "k < 10 \<Longrightarrow> digit (digit_char k) = k"
  by (simp add: digit_def of_char_digit_char)

lemma is_digit_digit_char: "k < 10 \<Longrightarrow> is_digit (digit_char k)"
  by (simp add: is_digit_def of_char_digit_char)

lemma decimal_1: "n < 10 \<Longrightarrow> decimal n = [digit_char n]"
  by (subst decimal.simps) simp

lemma decimal_2: "10 \<le> n \<Longrightarrow> n < 100 \<Longrightarrow> decimal n = [digit_char (n div 10), digit_char (n mod 10)]"
  by (subst decimal.simps) (simp add: decimal_1)

lemma decimal_3:
  "100 \<le> n \<Longrightarrow> n < 1000 \<Longrightarrow>
   decimal n = [digit_char (n div 100), digit_char (n div 10 mod 10), digit_char (n mod 10)]"
  by (subst decimal.simps) (simp add: decimal_2 div_mult2_eq [symmetric])

lemma decimal_4:
  "1000 \<le> n \<Longrightarrow> n < 10000 \<Longrightarrow>
   decimal n = [digit_char (n div 1000), digit_char (n div 100 mod 10),
                digit_char (n div 10 mod 10), digit_char (n mod 10)]"
  by (subst decimal.simps) (simp add: decimal_3 div_mult2_eq [symmetric])

lemma digit_char_0: "digit_char 0 = CHR ''0''"
proof -
  have "(of_char (digit_char 0) :: nat) = of_char (CHR ''0'')"
    by (simp add: of_char_digit_char)
  then show ?thesis by (simp only: of_char_eq_iff)
qed

lemma digit_char_not_sign: "k < 10 \<Longrightarrow> digit_char k \<noteq> CHR ''-'' \<and> digit_char k \<noteq> CHR ''+''"
proof -
  assume "k < 10"
  then have "(of_char (digit_char k) :: nat) \<noteq> of_char (CHR ''-'')"
    and "(of_char (digit_char k) :: nat) \<noteq> of_char (CHR ''+'')"
    by (simp_all add: of_char_digit_char)
  then show ?thesis by (simp only: of_char_eq_iff) simp
qed

lemma replicate_small:
  "replicate (Suc 0) c = [c]" "replicate 2 c = [c, c]" "replicate 3 c = [c, c, c]"
  by (simp_all add: numeral_2_eq_2 numeral_3_eq_3)

lemma appendInt_2:
  "n < 100 \<Longrightarrow> appendInt (int n) 2 = [digit_char (n div 10), digit_char (n mod 10)]"
  by (cases "n < 10") (simp_all add: appendInt_def decimal_1 decimal_2 digit_char_0)

lemma appendInt_4:
  assumes "n < 10000"
  shows "appendInt (int n) 4 = [digit_char (n div 1000), digit_char (n div 100 mod 10),
                digit_char (n div 10 mod 10), digit_char (n mod 10)]"
proof -
  consider "n < 10" | "10 \<le> n" "n < 100" | "100 \<le> n" "n < 1000" | "1000 \<le> n"
    by linarith
  then show ?thesis
  proof cases
    case 1 then show ?thesis
      by (simp add: appendInt_def decimal_1 digit_char_0 replicate_small)
  next
    case 2 then show ?thesis
      by (simp add: appendInt_def decimal_2 digit_char_0 replicate_small)
  next
    case 3 then show ?thesis
      by (simp add: appendInt_def decimal_3 digit_char_0 replicate_small)
  next
    case 4 with assms show ?thesis
      by (simp add: appendInt_def decimal_4)
  qed
qed

lemma getnum_digits:
  "a < 10 \<Longrightarrow> b < 10 \<Longrightarrow>
   getnum (digit_char a # digit_char b # rest) fixed = Some (a * 10 + b, rest)"
  by (simp add: getnum_def isDigit_def is_digit_digit_char digit_digit_char)

lemma atoi_digits:
  "a < 10 \<Longrightarrow> b < 10 \<Longrightarrow> c < 10 \<Longrightarrow> d < 10 \<Longrightarrow>
   atoi [digit_char a, digit_char b, digit_char c, digit_char d]
     = Some (int (a * 1000 + b * 100 + c * 10 + d))"
  by (simp add: atoi_def is_digit_digit_char digit_digit_char Let_def digit_char_not_sign)


lemma digits_4:
  "n div 1000 * 1000 + n div 100 mod 10 * 100 + n div 10 mod 10 * 10 + n mod 10 = (n::nat)"
proof -
  define q1 where "q1 = n div 10"
  define q2 where "q2 = n div 100"
  define q3 where "q3 = n div 1000"
  define r0 where "r0 = n mod 10"
  define r1 where "r1 = q1 mod 10"
  define r2 where "r2 = q2 mod 10"
  have q2: "q2 = q1 div 10" unfolding q2_def q1_def by (simp add: div_mult2_eq [symmetric])
  have q3: "q3 = q2 div 10" unfolding q3_def q2_def by (simp add: div_mult2_eq [symmetric])
  have e1: "n = 10 * q1 + r0" unfolding q1_def r0_def by simp
  have e2: "q1 = 10 * q2 + r1" unfolding q2 r1_def by simp
  have e3: "q2 = 10 * q3 + r2" unfolding q3 r2_def by simp
  have "q3 * 1000 + r2 * 100 + r1 * 10 + r0 = n"
    using e1 e2 e3 by linarith
  then show ?thesis
    unfolding q3_def r2_def r1_def r0_def q2_def q1_def .
qed

lemma stdLongYear_digits:
  assumes "n < 10000"
  shows "stdLongYear (appendInt (int n) 4 @ rest) = Inr (int n, rest)"
proof -
  have d: "n div 1000 < 10" "n div 100 mod 10 < 10" "n div 10 mod 10 < 10" "n mod 10 < 10"
    using assms by simp_all
  show ?thesis
    using d assms
    by (simp add: appendInt_4 stdLongYear_def isDigit_def is_digit_digit_char atoi_digits digits_4)
qed

lemma two_digits: "n < 100 \<Longrightarrow> n div 10 < 10 \<and> n mod 10 < 10 \<and> n div 10 * 10 + n mod 10 = (n::nat)"
  by simp

lemma getnum_appendInt:
  "n < 100 \<Longrightarrow> getnum (appendInt (int n) 2 @ rest) fixed = Some (n, rest)"
  using two_digits [of n] by (simp add: appendInt_2 getnum_digits)

lemma stdZeroMonth_digits:
  "1 \<le> m \<Longrightarrow> m \<le> 12 \<Longrightarrow> stdZeroMonth (appendInt (int m) 2 @ rest) = Inr (m, rest)"
  by (simp add: stdZeroMonth_def getnum_appendInt)

lemma stdZeroDay_digits:
  "d < 100 \<Longrightarrow> stdZeroDay (appendInt (int d) 2 @ rest) = Inr (d, rest)"
  by (simp add: stdZeroDay_def getnum_appendInt)

lemma stdHour_digits:
  "h < 24 \<Longrightarrow> stdHour (appendInt (int h) 2 @ rest) = Inr (h, rest)"
  by (simp add: stdHour_def getnum_appendInt)

lemma stdZeroMinute_digits:
  "m < 60 \<Longrightarrow> stdZeroMinute (appendInt (int m) 2 @ rest) = Inr (m, rest)"
  by (simp add: stdZeroMinute_def getnum_appendInt)

lemma stdZeroSecond_Z:
  "s < 60 \<Longrightarrow> stdZeroSecond (appendInt (int s) 2 @ ''Z'') = Inr ((s, 0), ''Z'')"
  by (simp add: stdZeroSecond_def getnum_appendInt)

lemma lit_char: "c \<noteq> CHR '' '' \<Longrightarrow> lit [c] (c # rest) = Inr rest"
  by (simp add: lit_def)

lemma lit_empty: "lit [] v = Inr v"
  by (simp add: lit_def)

lemma Parse_RFC3339_digits:
  assumes "y < 10000" "1 \<le> m" "m \<le> 12" "1 \<le> d" "d \<le> daysIn m (int y)" "d < 100"
    "h < 24" "mi < 60" "s < 60"
  shows "Parse_RFC3339 (appendInt (int y) 4 @ ''-'' @ appendInt (int m) 2 @ ''-''
            @ appendInt (int d) 2 @ ''T'' @ appendInt (int h) 2 @ '':''
            @ appendInt (int mi) 2 @ '':'' @ appendInt (int s) 2 @ ''Z'')
         = Inr (Date (int y) m d h mi s 0)"
  using assms
  by (simp add: Parse_RFC3339_def Parse_layout_def and_then_def stdLongYear_digits
      stdZeroMonth_digits stdZeroDay_digits stdHour_digits stdZeroMinute_digits stdZeroSecond_Z
      lit_char lit_empty stdISO8601ColonTZ_def Date_def)

text \<open>The calendar: month and day of a day of the year.\<close>

lemma nth_daysBefore:
  "daysBefore ! 0 = 0" "daysBefore ! 1 = 31" "daysBefore ! 2 = 59" "daysBefore ! 3 = 90"
  "daysBefore ! 4 = 120" "daysBefore ! 5 = 151" "daysBefore ! 6 = 181" "daysBefore ! 7 = 212"
  "daysBefore ! 8 = 243" "daysBefore ! 9 = 273" "daysBefore ! 10 = 304" "daysBefore ! 11 = 334"
  "daysBefore ! 12 = 365" "daysBefore ! Suc 0 = 31"
  by (simp_all add: daysBefore_def)

lemma month_estimate:
  assumes "day < 365"
  shows "case estimate_month day of (m, d) \<Rightarrow> month_ok day m d"
proof -
  define q where "q = day div 31"
  have "q < 12" using assms unfolding q_def by arith
  then have "q = 0 \<or> q = 1 \<or> q = 2 \<or> q = 3 \<or> q = 4 \<or> q = 5 \<or> q = 6 \<or> q = 7
               \<or> q = 8 \<or> q = 9 \<or> q = 10 \<or> q = 11"
    by presburger
  then show ?thesis
  proof (elim disjE, goal_cases)
    case 1
    then have q: "day div 31 = 0" by (simp add: q_def)
    then have "0 \<le> day" "day < 31" using assms by arith+
    with q show ?case by (auto simp: estimate_month_def month_ok_def daysBefore_def Let_def)
  next
    case 2
    then have q: "day div 31 = 1" by (simp add: q_def)
    then have "31 \<le> day" "day < 62" using assms by arith+
    with q show ?case by (auto simp: estimate_month_def month_ok_def daysBefore_def Let_def)
  next
    case 3
    then have q: "day div 31 = 2" by (simp add: q_def)
    then have "62 \<le> day" "day < 93" using assms by arith+
    with q show ?case by (auto simp: estimate_month_def month_ok_def daysBefore_def Let_def)
  next
    case 4
    then have q: "day div 31 = 3" by (simp add: q_def)
    then have "93 \<le> day" "day < 124" using assms by arith+
    with q show ?case by (auto simp: estimate_month_def month_ok_def daysBefore_def Let_def)
  next
    case 5
    then have q: "day div 31 = 4" by (simp add: q_def)
    then have "124 \<le> day" "day < 155" using assms by arith+
    with q show ?case by (auto simp: estimate_month_def month_ok_def daysBefore_def Let_def)
  next
    case 6
    then have q: "day div 31 = 5" by (simp add: q_def)
    then have "155 \<le> day" "day < 186" using assms by arith+
    with q show ?case by (auto simp: estimate_month_def month_ok_def daysBefore_def Let_def)
  next
    case 7
    then have q: "day div 31 = 6" by (simp add: q_def)
    then have "186 \<le> day" "day < 217" using assms by arith+
    with q show ?case by (auto simp: estimate_month_def month_ok_def daysBefore_def Let_def)
  next
    case 8
    then have q: "day div 31 = 7" by (simp add: q_def)
    then have "217 \<le> day" "day < 248" using assms by arith+
    with q show ?case by (auto simp: estimate_month_def month_ok_def daysBefore_def Let_def)
  next
    case 9
    then have q: "day div 31 = 8" by (simp add: q_def)
    then have "248 \<le> day" "day < 279" using assms by arith+
    with q show ?case by (auto simp: estimate_month_def month_ok_def daysBefore_def Let_def)
  next
    case 10
    then have q: "day div 31 = 9" by (simp add: q_def)
    then have "279 \<le> day" "day < 310" using assms by arith+
    with q show ?case by (auto simp: estimate_month_def month_ok_def daysBefore_def Let_def)
  next
    case 11
    then have q: "day div 31 = 10" by (simp add: q_def)
    then have "310 \<le> day" "day < 341" using assms by arith+
    with q show ?case by (auto simp: estimate_month_def month_ok_def daysBefore_def Let_def)
  next
    case 12
    then have q: "day div 31 = 11" by (simp add: q_def)
    then have "341 \<le> day" "day < 365" using assms by arith+
    with q show ?case by (auto simp: estimate_month_def month_ok_def daysBefore_def Let_def)
  qed
qed

lemma month_day_ok:
  assumes "yday < (if leap then 366 else 365)"
  shows "case month_day leap yday of (m, d) \<Rightarrow>
           1 \<le> m \<and> m \<le> 12 \<and> 1 \<le> d \<and>
           d \<le> (if m = 2 \<and> leap then 29 else daysBefore ! m - daysBefore ! (m - 1)) \<and>
           daysBefore ! (m - 1) + (if leap \<and> 3 \<le> m then 1 else 0) + d = Suc yday"
proof -
  consider (feb29) "leap" "yday = 59" | (after) "leap" "59 < yday" | (plain) "\<not> leap \<or> yday < 59"
    by linarith
  then show ?thesis
  proof cases
    case feb29
    then show ?thesis by (simp add: month_day_def daysBefore_def)
  next
    case after
    with assms have d: "yday - 1 < 365" "59 \<le> yday - 1" "Suc (yday - 1) = yday" by simp_all
    obtain m dd where e: "estimate_month (yday - 1) = (m, dd)" by fastforce
    with month_estimate [OF d(1)] have ok: "month_ok (yday - 1) m dd" by simp
    from after e have md: "month_day leap yday = (m, dd)"
      by (simp add: month_day_def)
    from ok d show ?thesis
      unfolding md month_ok_def using after by auto
  next
    case plain
    with assms have d: "yday < 365" by (auto split: if_splits)
    obtain m dd where e: "estimate_month yday = (m, dd)" by fastforce
    with month_estimate [OF d] have ok: "month_ok yday m dd" by simp
    from plain e have md: "month_day leap yday = (m, dd)"
      by (auto simp: month_day_def)
    from ok plain show ?thesis
      unfolding md month_ok_def by (auto simp: nth_daysBefore)
  qed
qed

text \<open>The calendar: the year of a day, and back.\<close>

lemma divmod_int:
  "0 \<le> r \<Longrightarrow> r < k \<Longrightarrow> (k * q + r) div k = (q::int) \<and> (k * q + r) mod k = r"
  using int_div_pos_eq [of "k * q + r" k q r] int_mod_pos_eq [of "k * q + r" k q r] by simp

lemma mod_full: "0 < r \<Longrightarrow> r \<le> k \<Longrightarrow> (r mod k = 0) = (r = (k::int))"
proof (cases "r = k")
  case True then show ?thesis by simp
next
  case False
  assume "0 < r" "r \<le> k"
  with False have "r mod k = r" by simp
  with \<open>0 < r\<close> False show ?thesis by simp
qed

lemma isLeap_cycles:
  assumes "0 \<le> b" "b \<le> 3" "0 \<le> c" "c \<le> 24" "0 \<le> e" "e \<le> (3::int)"
  shows "isLeap (400 * a + 100 * b + 4 * c + e + 1) \<longleftrightarrow> e = 3 \<and> (c \<noteq> 24 \<or> b = 3)"
proof -
  let ?y = "400 * a + 100 * b + 4 * c + e + 1"
  have "?y = 4 * (100 * a + 25 * b + c) + (e + 1)" by simp
  then have "?y mod 4 = (e + 1) mod 4" by (simp only: mod_mult_self4)
  moreover have "((e + 1) mod 4 = 0) = (e + 1 = 4)" using assms by (intro mod_full) simp_all
  ultimately have m4: "?y mod 4 = 0 \<longleftrightarrow> e = 3" by auto
  have "?y = 100 * (4 * a + b) + (4 * c + e + 1)" by simp
  then have "?y mod 100 = (4 * c + e + 1) mod 100" by (simp only: mod_mult_self4)
  moreover have "((4 * c + e + 1) mod 100 = 0) = (4 * c + e + 1 = 100)"
    using assms by (intro mod_full) simp_all
  moreover have "(4 * c + e + 1 = 100) = (c = 24 \<and> e = 3)" using assms by presburger
  ultimately have m100: "?y mod 100 = 0 \<longleftrightarrow> c = 24 \<and> e = 3" by simp
  have "?y = 400 * a + (100 * b + 4 * c + e + 1)" by simp
  then have "?y mod 400 = (100 * b + 4 * c + e + 1) mod 400" by (simp only: mod_mult_self4)
  moreover have "((100 * b + 4 * c + e + 1) mod 400 = 0) = (100 * b + 4 * c + e + 1 = 400)"
    using assms by (intro mod_full) simp_all
  moreover have "(100 * b + 4 * c + e + 1 = 400) = (b = 3 \<and> c = 24 \<and> e = 3)"
    using assms by presburger
  ultimately have m400: "?y mod 400 = 0 \<longleftrightarrow> b = 3 \<and> c = 24 \<and> e = 3" by simp
  show ?thesis unfolding isLeap_def m4 m100 m400 by auto
qed

lemma daysSinceEpoch_cycles:
  assumes "0 \<le> b" "b \<le> 3" "0 \<le> c" "c \<le> 24" "0 \<le> e" "e \<le> (3::int)"
  shows "daysSinceEpoch (400 * a + 100 * b + 4 * c + e + 1)
           = 146097 * a + 36524 * b + 1461 * c + 365 * e"
proof -
  let ?y = "400 * a + 100 * b + 4 * c + e + 1"
  have y: "?y - 1 = 400 * a + (100 * b + 4 * c + e)" by simp
  have q400: "(?y - 1) div 400 = a"
    unfolding y using assms by (intro conjunct1 [OF divmod_int]) simp_all
  have r400: "100 * b + 4 * c + e = 100 * b + (4 * c + e)" by simp
  have q100: "(100 * b + 4 * c + e) div 100 = b"
    unfolding r400 using assms by (intro conjunct1 [OF divmod_int]) simp_all
  have q4: "(4 * c + e) div 4 = c"
    using assms by (intro conjunct1 [OF divmod_int]) simp_all
  have y1: "?y - 1 - 400 * a = 100 * b + 4 * c + e" by simp
  have y2: "100 * b + 4 * c + e - 100 * b = 4 * c + e" by simp
  have y3: "4 * c + e - 4 * c = e" by simp
  show ?thesis
    unfolding daysSinceEpoch_def Let_def q400 y1 q100 y2 q4 y3 ..
qed

lemma absYear_ok:
  "case absYear days of (y, yd) \<Rightarrow>
     0 \<le> yd \<and> yd < (if isLeap y then 366 else 365) \<and> daysSinceEpoch y + yd = days"
proof -
  define a where "a = days div 146097"
  define d1 where "d1 = days - 146097 * a"
  define b' where "b' = d1 div 36524"
  define b where "b = b' - b' div 4"
  define d2 where "d2 = d1 - 36524 * b"
  define c where "c = d2 div 1461"
  define d3 where "d3 = d2 - 1461 * c"
  define e' where "e' = d3 div 365"
  define e where "e = e' - e' div 4"
  define yd where "yd = d3 - 365 * e"
  have abs: "absYear days = (400 * a + 100 * b + 4 * c + e + 1, yd)"
    unfolding absYear_def Let_def yd_def e_def e'_def d3_def c_def d2_def b_def b'_def d1_def a_def
    by simp
  have d1: "0 \<le> d1" "d1 < 146097"
    unfolding d1_def a_def by (simp_all add: minus_mult_div_eq_mod)
  have b': "0 \<le> b'" "b' \<le> 4" "36524 * b' \<le> d1" "d1 < 36524 * b' + 36524"
    using d1 unfolding b'_def by linarith+
  have bb: "b = (if b' = 4 then 3 else b')" using b'(1,2) unfolding b_def by (cases "b' = 4") simp_all
  have b: "0 \<le> b" "b \<le> 3" "36524 * b \<le> d1" "d1 \<le> 36524 * b + 36524"
    using b' d1 unfolding bb by (simp_all split: if_splits)
  have b3: "d1 < 36524 * b + 36524" if "b < 3"
    using that b' unfolding bb by (simp split: if_splits)
  have d2: "0 \<le> d2" "d2 \<le> 36524" using b unfolding d2_def by linarith+
  have d2': "d2 < 36524" if "b < 3" using b3 [OF that] unfolding d2_def by linarith
  have c: "0 \<le> c" "c \<le> 24" "1461 * c \<le> d2" "d2 < 1461 * c + 1461"
    using d2 unfolding c_def by linarith+
  have d3: "0 \<le> d3" "d3 < 1461" using c unfolding d3_def by linarith+
  have e': "0 \<le> e'" "e' \<le> 4" "365 * e' \<le> d3" "d3 < 365 * e' + 365"
    using d3 unfolding e'_def by linarith+
  have ee: "e = (if e' = 4 then 3 else e')" using e'(1,2) unfolding e_def by (cases "e' = 4") simp_all
  have e: "0 \<le> e" "e \<le> 3" "365 * e \<le> d3" "d3 \<le> 365 * e + 365"
    using e' d3 unfolding ee by (simp_all split: if_splits)
  have e3: "d3 < 365 * e + 365" if "e < 3"
    using that e' unfolding ee by (simp split: if_splits)
  have yd: "0 \<le> yd" "yd \<le> 365" using e unfolding yd_def by linarith+
  have leap: "isLeap (400 * a + 100 * b + 4 * c + e + 1) \<longleftrightarrow> e = 3 \<and> (c \<noteq> 24 \<or> b = 3)"
    using b(1,2) c(1,2) e(1,2) by (rule isLeap_cycles)
  have dse: "daysSinceEpoch (400 * a + 100 * b + 4 * c + e + 1)
               = 146097 * a + 36524 * b + 1461 * c + 365 * e"
    using b(1,2) c(1,2) e(1,2) by (rule daysSinceEpoch_cycles)
  have sum: "146097 * a + 36524 * b + 1461 * c + 365 * e + yd = days"
    unfolding yd_def d3_def d2_def d1_def by simp
  have full: "e = 3 \<and> (c \<noteq> 24 \<or> b = 3)" if "yd = 365"
  proof -
    from that e3 have e3': "e = 3" using e unfolding yd_def by linarith
    with that have "d3 = 1460" unfolding yd_def by simp
    then have "c = 24 \<Longrightarrow> d2 = 36524" unfolding d3_def by simp
    with d2' b have "c = 24 \<Longrightarrow> b = 3" by linarith
    with e3' show ?thesis by blast
  qed
  show ?thesis
    unfolding abs using yd full leap dse sum by auto
qed

text \<open>What \<open>absDate\<close> answers is a date of the calendar, and \<open>Date\<close> counts the
  same day from it.\<close>

lemma absDate_ok:
  "case absDate days of (y, m, d) \<Rightarrow>
     1 \<le> m \<and> m \<le> 12 \<and> 1 \<le> d \<and> d \<le> daysIn m y \<and>
     daysSinceEpoch y + int (daysBefore ! (m - 1)) + (if isLeap y \<and> 3 \<le> m then 1 else 0)
       + (int d - 1) = days"
proof -
  obtain y yd where a: "absYear days = (y, yd)" by fastforce
  with absYear_ok [of days]
  have yd: "0 \<le> yd" "yd < (if isLeap y then 366 else 365)" "daysSinceEpoch y + yd = days"
    by simp_all
  obtain m d where md: "month_day (isLeap y) (nat yd) = (m, d)" by fastforce
  have "nat yd < (if isLeap y then 366 else 365)" using yd by auto
  from month_day_ok [OF this] md
  have m: "1 \<le> m" "m \<le> 12" "1 \<le> d" "d \<le> daysIn m y"
    and s: "daysBefore ! (m - 1) + (if isLeap y \<and> 3 \<le> m then 1 else 0) + d = Suc (nat yd)"
    by (simp_all add: daysIn_def)
  from s have "int (daysBefore ! (m - 1) + (if isLeap y \<and> 3 \<le> m then 1 else 0) + d)
                 = int (Suc (nat yd))" by simp
  with yd(1) have "int (daysBefore ! (m - 1)) + (if isLeap y \<and> 3 \<le> m then 1 else 0) + (int d - 1) = yd"
    by (simp split: if_splits)
  with yd(3) have "daysSinceEpoch y + int (daysBefore ! (m - 1))
      + (if isLeap y \<and> 3 \<le> m then 1 else 0) + (int d - 1) = days" by simp
  with m show ?thesis by (simp add: absDate_def a md)
qed

lemma daysIn_le: "1 \<le> m \<Longrightarrow> m \<le> 12 \<Longrightarrow> daysIn m y \<le> 31"
proof -
  assume "1 \<le> m" "m \<le> 12"
  then have "m = 1 \<or> m = 2 \<or> m = 3 \<or> m = 4 \<or> m = 5 \<or> m = 6 \<or> m = 7 \<or> m = 8 \<or> m = 9
      \<or> m = 10 \<or> m = 11 \<or> m = 12" by presburger
  then show ?thesis
    by (elim disjE) (simp_all add: daysIn_def nth_daysBefore)
qed

lemma clock_parts:
  assumes "0 \<le> r" "r < (86400::int)"
  shows "nat (r div 3600) < 24" "nat (r mod 3600 div 60) < 60" "nat (r mod 60) < 60"
    "int (nat (r div 3600)) * 3600 + int (nat (r mod 3600 div 60)) * 60 + int (nat (r mod 60)) = r"
proof -
  define h where "h = r div 3600"
  define r1 where "r1 = r mod 3600"
  define mi where "mi = r1 div 60"
  define s where "s = r1 mod 60"
  have e1: "r = 3600 * h + r1" unfolding h_def r1_def by simp
  have r1: "0 \<le> r1" "r1 < 3600" unfolding r1_def by simp_all
  have e2: "r1 = 60 * mi + s" unfolding mi_def s_def by simp
  have s: "0 \<le> s" "s < 60" unfolding s_def by simp_all
  have s': "s = r mod 60" unfolding s_def r1_def by (simp add: mod_mod_cancel)
  have h: "0 \<le> h" "h < 24" using assms e1 r1 by linarith+
  have mi: "0 \<le> mi" "mi < 60" using e2 r1 s by linarith+
  show "nat (r div 3600) < 24" using h unfolding h_def by simp
  show "nat (r mod 3600 div 60) < 60" using mi unfolding mi_def r1_def by simp
  show "nat (r mod 60) < 60" using s unfolding s' by simp
  have "int (nat h) * 3600 + int (nat mi) * 60 + int (nat s) = r"
    using h mi s e1 e2 by simp
  then show "int (nat (r div 3600)) * 3600 + int (nat (r mod 3600 div 60)) * 60
               + int (nat (r mod 60)) = r"
    unfolding h_def mi_def r1_def s' .
qed

lemma Format_Parse_UTC:
  assumes "0 \<le> Year (UTC t)" "Year (UTC t) \<le> 9999"
  shows "Parse_RFC3339 (Format_RFC3339 (UTC t)) = Inr \<lparr>sec = sec t, nsec = 0, zone = 0\<rparr>"
proof -
  define days where "days = sec t div 86400"
  define r where "r = sec t mod 86400"
  obtain y m d where ymd: "absDate days = (y, m, d)" by (cases "absDate days") auto
  from assms ymd have y: "0 \<le> y" "y \<le> 9999"
    by (simp_all add: Year_def UTC_def days_def)
  from absDate_ok [of days] ymd
  have m: "1 \<le> m" "m \<le> 12" "1 \<le> d" "d \<le> daysIn m y"
    and total: "daysSinceEpoch y + int (daysBefore ! (m - 1))
                 + (if isLeap y \<and> 3 \<le> m then 1 else 0) + (int d - 1) = days"
    by simp_all
  from daysIn_le [OF m(1,2), of y] m(4) have d100: "d < 100" by simp
  have r: "0 \<le> r" "r < 86400" unfolding r_def by simp_all
  note c = clock_parts [OF r]
  define yn where "yn = nat y"
  have yn: "y = int yn" "yn < 10000" using y unfolding yn_def by simp_all
  have fmt: "Format_RFC3339 (UTC t) =
          appendInt (int yn) 4 @ ''-'' @ appendInt (int m) 2 @ ''-''
            @ appendInt (int d) 2 @ ''T'' @ appendInt (int (nat (r div 3600))) 2 @ '':''
            @ appendInt (int (nat (r mod 3600 div 60))) 2 @ '':''
            @ appendInt (int (nat (r mod 60))) 2 @ ''Z''"
    using r ymd yn(1)
    by (simp add: Format_RFC3339_def UTC_def Let_def days_def [symmetric] r_def [symmetric])
  have "Parse_RFC3339 (Format_RFC3339 (UTC t))
          = Inr (Date (int yn) m d (nat (r div 3600)) (nat (r mod 3600 div 60)) (nat (r mod 60)) 0)"
    unfolding fmt using yn(2) m d100 c(1,2,3) yn(1)
    by (intro Parse_RFC3339_digits) simp_all
  moreover have "Date (int yn) m d (nat (r div 3600)) (nat (r mod 3600 div 60)) (nat (r mod 60)) 0
          = \<lparr>sec = sec t, nsec = 0, zone = 0\<rparr>"
  proof -
    have "days * 86400 + r = sec t" unfolding days_def r_def by simp
    with total c(4) show ?thesis
      unfolding Date_def Let_def yn(1) [symmetric] by simp
  qed
  ultimately show ?thesis by simp
qed

text \<open>Every timestamp of the pattern with valid fields is accepted by
  \<open>time.Parse\<close> under the layout of \<open>Commit\<close>, as the instant it denotes.\<close>

lemma digit_char_not_space: "k < 10 \<Longrightarrow> digit_char k \<noteq> CHR '' ''"
proof -
  assume "k < 10"
  then have "(of_char (digit_char k) :: nat) \<noteq> of_char (CHR '' '')"
    by (simp add: of_char_digit_char)
  then show ?thesis by (simp only: of_char_eq_iff) simp
qed

lemma lit_space: "c \<noteq> CHR '' '' \<Longrightarrow> lit '' '' (CHR '' '' # c # rest) = Inr (c # rest)"
  by (simp add: lit_def cutspace_def)

lemma appendInt_2_Cons:
  "n < 100 \<Longrightarrow> appendInt (int n) 2 @ rest = digit_char (n div 10) # digit_char (n mod 10) # rest"
  by (simp add: appendInt_2)

lemma stdZeroSecond_space:
  "s < 60 \<Longrightarrow> stdZeroSecond (appendInt (int s) 2 @ CHR '' '' # rest) = Inr ((s, 0), CHR '' '' # rest)"
  by (simp add: stdZeroSecond_def getnum_appendInt commaOrPeriod_def)

lemma stdNumTZ_digits:
  assumes "zh \<le> 24" "zm \<le> 60"
  shows "stdNumTZ ((if east then ''+'' else ''-'') @ appendInt (int zh) 2 @ appendInt (int zm) 2)
           = Inr (offset_seconds east zh zm, [])"
proof -
  have z: "zh < 100" "zm < 100" using assms by simp_all
  have g1: "getnum [digit_char (zh div 10), digit_char (zh mod 10)] True = Some (zh, [])"
    using getnum_appendInt [OF z(1), of "[]" True] by (simp add: appendInt_2 z)
  have g2: "getnum [digit_char (zm div 10), digit_char (zm mod 10)] True = Some (zm, [])"
    using getnum_appendInt [OF z(2), of "[]" True] by (simp add: appendInt_2 z)
  show ?thesis
    using assms
    by (simp add: stdNumTZ_def appendInt_2 z zone_offset_def g1 g2 and_then_def offset_seconds_def)
qed

lemma time_Parse_pattern:
  assumes "valid_fields y mo d h mi s zh zm"
  shows "time_Parse (backend_timestamp y mo d h mi s east zh zm)
           = Inr (denoted y mo d h mi s east zh zm)"
proof -
  from assms have v: "y < 10000" "1 \<le> mo" "mo \<le> 12" "1 \<le> d" "d \<le> daysIn mo (int y)"
    "h < 24" "mi < 60" "s < 60" "zh \<le> 24" "zm \<le> 60"
    by (simp_all add: valid_fields_def)
  from daysIn_le [OF v(2,3), of "int y"] v(5) have d100: "d < 100" by simp
  have h10: "h div 10 < 10" using v(6) by simp
  have sp1: "lit '' '' (CHR '' '' # appendInt (int h) 2 @ rest)
               = Inr (appendInt (int h) 2 @ rest)" for rest
    using v(6) h10 by (simp add: appendInt_2_Cons lit_space digit_char_not_space)
  have sp2: "lit '' '' (CHR '' '' # (if east then ''+'' else ''-'') @ rest)
               = Inr ((if east then ''+'' else ''-'') @ rest)" for rest
    by (simp add: lit_space)
  have tz: "stdNumTZ ((if east then ''+'' else ''-'') @ appendInt (int zh) 2 @ appendInt (int zm) 2)
              = Inr (offset_seconds east zh zm, [])"
    using v(9,10) by (rule stdNumTZ_digits)
  have sec: "stdZeroSecond (appendInt (int s) 2 @ CHR '' '' # rest) = Inr ((s, 0), CHR '' '' # rest)"
    for rest using v(8) by (rule stdZeroSecond_space)
  show ?thesis
    unfolding time_Parse_def Parse_layout_def backend_timestamp_def
    using v d100
    by (simp add: and_then_def stdLongYear_digits stdZeroMonth_digits stdZeroDay_digits
        stdHour_digits stdZeroMinute_digits sec sp1 sp2 tz lit_char denoted_def Let_def Date_def
        del: append_assoc)
qed

text \<open>
  Claim C6, as amended. A timestamp of the pattern
  \<open>YYYY-MM-DD HH:MM:SS \<plusminus>HHMM\<close> with valid fields, whose instant lies in the years
  0000 to 9999 of UTC: \<open>time.Parse\<close> accepts it as the instant it denotes; and
  that instant, converted to UTC and formatted as RFC 3339 as \<open>Commit\<close> does and
  then parsed back as RFC 3339, is the same instant to the second, in UTC.
\<close>

theorem commit_time_round_trip:
  assumes "valid_fields y mo d h mi s zh zm"
    and "tm = denoted y mo d h mi s east zh zm"
    and "0 \<le> Year (UTC tm)" and "Year (UTC tm) \<le> 9999"
  shows "time_Parse (backend_timestamp y mo d h mi s east zh zm) = Inr tm \<and>
         Parse_RFC3339 (Format_RFC3339 (UTC tm)) = Inr \<lparr>sec = sec tm, nsec = 0, zone = 0\<rparr>"
  using time_Parse_pattern [OF assms(1), of east] Format_Parse_UTC [OF assms(3,4)] assms(2)
  by simp

theorem commit_time_round_trip_witness:
  "valid_fields 2016 3 4 5 6 7 1 0 \<and>
   backend_timestamp 2016 3 4 5 6 7 True 1 0 = ''2016-03-04 05:06:07 +0100'' \<and>
   denoted 2016 3 4 5 6 7 True 1 0 = \<lparr>sec = 63592661167, nsec = 0, zone = 3600\<rparr> \<and>
   Year (UTC \<lparr>sec = 63592661167, nsec = 0, zone = 3600\<rparr>) = 2016 \<and>
   time_Parse ''2016-03-04 05:06:07 +0100'' = Inr \<lparr>sec = 63592661167, nsec = 0, zone = 3600\<rparr> \<and>
   Format_RFC3339 (UTC \<lparr>sec = 63592661167, nsec = 0, zone = 3600\<rparr>) = ''2016-03-04T04:06:07Z'' \<and>
   Parse_RFC3339 ''2016-03-04T04:06:07Z'' = Inr \<lparr>sec = 63592661167, nsec = 0, zone = 0\<rparr>"
proof -
  have v: "valid_fields 2016 3 4 5 6 7 1 0"
    by code_simp
  have b: "backend_timestamp 2016 3 4 5 6 7 True 1 0 = ''2016-03-04 05:06:07 +0100''"
    by code_simp
  have d: "\<lparr>sec = 63592661167, nsec = 0, zone = 3600\<rparr> = denoted 2016 3 4 5 6 7 True 1 0"
    by code_simp
  have y: "Year (UTC \<lparr>sec = 63592661167, nsec = 0, zone = 3600\<rparr>) = 2016"
    by code_simp
  have f: "Format_RFC3339 (UTC \<lparr>sec = 63592661167, nsec = 0, zone = 3600\<rparr>)
             = ''2016-03-04T04:06:07Z''"
    by code_simp
  from y have y1: "0 \<le> Year (UTC \<lparr>sec = 63592661167, nsec = 0, zone = 3600\<rparr>)"
    and y2: "Year (UTC \<lparr>sec = 63592661167, nsec = 0, zone = 3600\<rparr>) \<le> 9999"
    by simp_all
  from commit_time_round_trip [OF v d y1 y2] v b d [symmetric] y f
  show ?thesis by simp
qed

text \<open>
  Claim C6, as stated, fails at a timestamp of the pattern in year 0000 east of
  Greenwich: its fields are valid and \<open>time.Parse\<close> accepts it, its instant lies
  in the year before, \<open>Commit\<close> returns a text with a minus sign before the digits
  of the year, and that is no timestamp of RFC 3339: parsing it back fails at the
  year.
\<close>

theorem commit_time_before_year_zero:
  "valid_fields 0 1 1 0 0 0 1 0 \<and>
   backend_timestamp 0 1 1 0 0 0 True 1 0 = ''0000-01-01 00:00:00 +0100'' \<and>
   time_Parse ''0000-01-01 00:00:00 +0100'' = Inr \<lparr>sec = - 31626000, nsec = 0, zone = 3600\<rparr> \<and>
   Year (UTC \<lparr>sec = - 31626000, nsec = 0, zone = 3600\<rparr>) = - 1 \<and>
   Commit_parse ''deadbeef@0000-01-01 00:00:00 +0100'' = Inr (''deadbeef'', ''-0001-12-31T23:00:00Z'') \<and>
   Parse_RFC3339 ''-0001-12-31T23:00:00Z'' = Inl (CannotParse ''2006'' ''-0001-12-31T23:00:00Z'')"
  by code_simp

end
